theory Spec2Isabelle
  imports Complex_Main "HOL-Library.Multiset" "HOL-Library.Log_Nat"
begin

section \<open>Data model of the purchase route\<close>

text \<open>
  The embedding follows \<^verbatim>\<open>router.post("/:cid/purchase", ...)\<close> and
  \<^verbatim>\<open>generateUniqueCode\<close> of \<^verbatim>\<open>src/routes/carts.router.js\<close>.

  A finite JavaScript number is the rational it denotes; \<^verbatim>\<open>NaN\<close> and the infinities
  are outside the model. \<open>purchase\<close> computes on these rationals exactly;
  \<open>purchase_loaded\<close> and \<open>post_purchase\<close> take the rounding of each arithmetic
  result as a parameter, \<open>double_round\<close> being the one of the program, and agree with
  \<open>purchase\<close> where nothing rounds. Identifiers (Mongo ObjectIds) are strings
  compared by value.

  The Mongoose models \<^verbatim>\<open>Cart\<close>, \<^verbatim>\<open>Product\<close> and \<^verbatim>\<open>Ticket\<close> are required by the
  route but their schema files are not part of the sources; the records below hold
  exactly the fields the route reads and writes.
\<close>

type_synonym number = rat
type_synonym pid = string
type_synonym cid = string
type_synonym uid = string

text \<open>A product document: the route reads \<^verbatim>\<open>price\<close> and \<^verbatim>\<open>stock\<close>, and writes \<^verbatim>\<open>stock\<close>.\<close>

record product_doc =
  price :: number
  stock :: number

text \<open>
  A line item of \<^verbatim>\<open>cart.products\<close>: the stored product reference and the quantity.
  The reference may dangle (no product with that identifier): \<^verbatim>\<open>populate\<close> then
  leaves \<^verbatim>\<open>item.product\<close> null.
\<close>

record line_item =
  product :: pid
  quantity :: number

text \<open>A line of \<^verbatim>\<open>ticket.products\<close>: \<^verbatim>\<open>{product, quantity, price}\<close>.\<close>

record ticket_item = line_item +
  price :: number

record cart =
  user :: "uid option"
  products :: "line_item list"

record ticket =
  code :: string
  user :: uid
  products :: "ticket_item list"
  total :: number
  createdAt :: nat

text \<open>The three collections the route touches.\<close>

record db =
  Products :: "pid \<rightharpoonup> product_doc"
  Carts :: "cid \<rightharpoonup> cart"
  Tickets :: "ticket list"

text \<open>
  The only exception the route's own code can raise: reading \<^verbatim>\<open>_id\<close> of a null
  product. Failures of the storage layer (driver errors, schema validation) are not
  modelled.
\<close>

datatype error = TypeError

text \<open>
  The four responses of the route: 404 \<^verbatim>\<open>Carrito no encontrado\<close>, 400
  \<^verbatim>\<open>El carrito no tiene asociado un usuario.\<close>, 500 \<^verbatim>\<open>Error al finalizar la compra\<close>
  (the \<^verbatim>\<open>catch\<close> block), and 200 with the ticket and \<^verbatim>\<open>productsNotProcessed\<close>.
\<close>

datatype response =
    NotFound
  | BadRequest
  | ServerError
  | Ok ticket "pid list"

fun status :: "response \<Rightarrow> nat" where
  "status NotFound = 404"
| "status BadRequest = 400"
| "status ServerError = 500"
| "status (Ok t np) = 200"

section \<open>Ticket codes\<close>

text \<open>
  \<^verbatim>\<open>Math.random().toString(36).substr(2, 9).toUpperCase()\<close>. The argument \<open>rnd\<close> is
  the string \<^verbatim>\<open>Math.random().toString(36)\<close>, an input from the environment: it starts
  with \<^verbatim>\<open>0.\<close> and continues with digits of base 36 (ASCII only).
\<close>

definition substr :: "nat \<Rightarrow> nat \<Rightarrow> string \<Rightarrow> string" where
  "substr start len s = take len (drop start s)"

text \<open>
  On ASCII, \<^verbatim>\<open>toUpperCase\<close> maps the codes 97..122 (a..z) to 65..90 (A..Z) and leaves
  every other character alone; subtracting 32 from such a code clears its bit 5.
\<close>

definition toUpperCase_char :: "char \<Rightarrow> char" where
  "toUpperCase_char c =
     (if 97 \<le> (of_char c :: nat) \<and> (of_char c :: nat) \<le> 122
      then (case c of Char b0 b1 b2 b3 b4 b5 b6 b7 \<Rightarrow> Char b0 b1 b2 b3 b4 False b6 b7)
      else c)"

definition toUpperCase :: "string \<Rightarrow> string" where
  "toUpperCase s = map toUpperCase_char s"

definition generateUniqueCode :: "string \<Rightarrow> string" where
  "generateUniqueCode rnd = toUpperCase (substr 2 9 rnd)"

section \<open>The reservation loop\<close>

text \<open>
  The local variables of the handler during the \<^verbatim>\<open>for\<close> loop, together with the
  product documents. \<^verbatim>\<open>populate\<close> resolves every line item holding the same
  identifier to one shared document, and each change of a document is saved at once
  (\<^verbatim>\<open>await product.save()\<close>), so within one request the documents in memory and the
  stored products agree; \<open>docs\<close> stands for both.
\<close>

record loop_state =
  docs :: "pid \<rightharpoonup> product_doc"
  totalAmount :: number
  productsNotProcessed :: "pid list"
  productsProcessed :: "line_item list"

text \<open>
  One iteration of the loop body. The \<^verbatim>\<open>else\<close> branch evaluates \<^verbatim>\<open>product._id\<close>, which
  raises a TypeError when \<^verbatim>\<open>product\<close> is null.
\<close>

definition purchase_item :: "loop_state \<Rightarrow> line_item \<Rightarrow> error + loop_state" where
  "purchase_item s item =
     (case docs s (product item) of
        None \<Rightarrow> Inl TypeError
      | Some p \<Rightarrow>
          if stock p \<ge> quantity item then
            Inr (s\<lparr>docs := (docs s)(product item \<mapsto> p\<lparr>stock := stock p - quantity item\<rparr>),
                   totalAmount := totalAmount s + product_doc.price p * quantity item,
                   productsProcessed := productsProcessed s @ [item]\<rparr>)
          else
            Inr (s\<lparr>productsNotProcessed := productsNotProcessed s @ [product item]\<rparr>))"

text \<open>
  The loop over \<^verbatim>\<open>cart.products\<close>. An exception leaves the loop; the state reached
  before the failing iteration is returned with it, since the stock it saved stays saved.
\<close>

fun purchase_loop :: "loop_state \<Rightarrow> line_item list \<Rightarrow> (error \<times> loop_state) + loop_state" where
  "purchase_loop s [] = Inr s"
| "purchase_loop s (item # items) =
     (case purchase_item s item of
        Inl e \<Rightarrow> Inl (e, s)
      | Inr s' \<Rightarrow> purchase_loop s' items)"

text \<open>
  The state at loop entry: \<^verbatim>\<open>let totalAmount = 0; const productsNotProcessed = [];
  const productsProcessed = [];\<close> over the populated product documents.
\<close>

definition initial_state :: "(pid \<rightharpoonup> product_doc) \<Rightarrow> loop_state" where
  "initial_state ds =
     \<lparr>docs = ds, totalAmount = 0, productsNotProcessed = [], productsProcessed = []\<rparr>"

section \<open>Ticket lines and the residual cart\<close>

text \<open>
  \<^verbatim>\<open>productsProcessed.map((item) => ({product: item.product._id, quantity: item.quantity,
  price: item.product.price}))\<close>, read from the documents as they are after the loop.
\<close>

fun ticket_products :: "(pid \<rightharpoonup> product_doc) \<Rightarrow> line_item list \<Rightarrow> error + ticket_item list" where
  "ticket_products ds [] = Inr []"
| "ticket_products ds (item # items) =
     (case ds (product item) of
        None \<Rightarrow> Inl TypeError
      | Some p \<Rightarrow>
          (case ticket_products ds items of
             Inl e \<Rightarrow> Inl e
           | Inr ts \<Rightarrow>
               Inr (\<lparr>product = product item, quantity = quantity item,
                     ticket_item.price = product_doc.price p\<rparr> # ts)))"

text \<open>
  \<^verbatim>\<open>cart.products.filter((item) => productsNotProcessed.includes(item.product._id))\<close>.
\<close>

fun filter_not_processed ::
  "(pid \<rightharpoonup> product_doc) \<Rightarrow> pid list \<Rightarrow> line_item list \<Rightarrow> error + line_item list" where
  "filter_not_processed ds np [] = Inr []"
| "filter_not_processed ds np (item # items) =
     (case ds (product item) of
        None \<Rightarrow> Inl TypeError
      | Some p \<Rightarrow>
          (case filter_not_processed ds np items of
             Inl e \<Rightarrow> Inl e
           | Inr r \<Rightarrow> Inr (if product item \<in> set np then item # r else r)))"

section \<open>The purchase handler\<close>

text \<open>
  \<open>purchase rnd now c d\<close> is the handler run on the database \<open>d\<close> for the cart
  identifier \<open>c\<close>; \<open>rnd\<close> is the rendering of the random draw and \<open>now\<close> the clock
  reading used for \<^verbatim>\<open>createdAt\<close>. It returns the response and the database left behind.
  Here \<open>c\<close> is the identifier the path segment has been cast to, the arithmetic is
  exact, and no other request touches the database between the handler's load and its
  writes. The casts, the rounding and a load that precedes another request's writes are
  in \<open>post_purchase\<close> and \<open>purchase_loaded\<close> below.
\<close>

definition purchase :: "string \<Rightarrow> nat \<Rightarrow> cid \<Rightarrow> db \<Rightarrow> response \<times> db" where
  "purchase rnd now c d =
     (case Carts d c of
        None \<Rightarrow> (NotFound, d)
      | Some crt \<Rightarrow>
          (case cart.user crt of
             None \<Rightarrow> (BadRequest, d)
           | Some u \<Rightarrow>
               (case purchase_loop (initial_state (Products d)) (cart.products crt) of
                  Inl (e, s) \<Rightarrow> (ServerError, d\<lparr>Products := docs s\<rparr>)
                | Inr s \<Rightarrow>
                    (case ticket_products (docs s) (productsProcessed s) of
                       Inl e \<Rightarrow> (ServerError, d\<lparr>Products := docs s\<rparr>)
                     | Inr lines \<Rightarrow>
                         (let t = \<lparr>code = generateUniqueCode rnd, ticket.user = u,
                                   ticket.products = lines, total = totalAmount s,
                                   createdAt = now\<rparr>;
                              d1 = d\<lparr>Products := docs s, Tickets := Tickets d @ [t]\<rparr>
                          in (case filter_not_processed (docs s) (productsNotProcessed s)
                                     (cart.products crt) of
                                Inl e \<Rightarrow> (ServerError, d1)
                              | Inr r \<Rightarrow>
                                  (Ok t (productsNotProcessed s),
                                   d1\<lparr>Carts := (Carts d)(c \<mapsto> crt\<lparr>cart.products := r\<rparr>)\<rparr>)))))))"

section \<open>Double-precision arithmetic\<close>

text \<open>
  The numbers of the program are IEEE 754 doubles, and every \<^verbatim>\<open>-\<close>, \<^verbatim>\<open>*\<close> and \<^verbatim>\<open>+=\<close> of
  the handler rounds its exact result to the nearest double, ties to the even
  significand. \<open>double_round x\<close> is that double: 53 significant bits, least exponent
  \<open>-1074\<close> (subnormal numbers included). A result of magnitude \<open>2^1024\<close> or more is
  \<^verbatim>\<open>Infinity\<close> in the program and is not modelled.
\<close>

definition pow2 :: "int \<Rightarrow> rat" where
  "pow2 k = (if 0 \<le> k then 2 ^ nat k else 1 / 2 ^ nat (- k))"

text \<open>Rounding to the nearest integer, a tie going to the even one.\<close>

definition round_half_even :: "rat \<Rightarrow> int" where
  "round_half_even x =
     (let f = \<lfloor>x\<rfloor>; r = x - of_int f
      in if r < 1 / 2 then f else if 1 / 2 < r then f + 1 else if even f then f else f + 1)"

text \<open>
  \<open>floor_log2 x\<close> is the integer \<open>k\<close> with \<open>2^k \<le> x < 2^(k+1)\<close>, for positive \<open>x\<close>: the
  difference of the bit lengths of numerator and denominator, or one less.
\<close>

definition floor_log2 :: "rat \<Rightarrow> int" where
  "floor_log2 x =
     (let k = bitlen (fst (quotient_of x)) - bitlen (snd (quotient_of x))
      in if pow2 k \<le> x then k else k - 1)"

definition double_round :: "number \<Rightarrow> number" where
  "double_round x =
     (if x = 0 then 0
      else let e = max (floor_log2 \<bar>x\<bar> - 52) (- 1074);
               m = round_half_even (\<bar>x\<bar> / pow2 e)
           in sgn x * of_int m * pow2 e)"

section \<open>The cast of the path segment\<close>

text \<open>
  \<^verbatim>\<open>Cart.findById(cid)\<close> casts the raw path segment to the type of the cart's \<^verbatim>\<open>_id\<close>
  before it queries; a segment that does not cast makes the query throw, inside the
  \<^verbatim>\<open>try\<close> block. The schema file of \<^verbatim>\<open>Cart\<close> is not part of the sources, so the route
  below takes the cast as a parameter. \<open>castObjectId\<close> is the cast to the default
  \<^verbatim>\<open>_id\<close> type, ObjectId: the string form of an ObjectId is 24 hexadecimal digits, read
  without regard to case. (Drivers before bson 5 also accept any string of 12
  characters; no statement below depends on such a string.)
\<close>

definition is_hex_digit :: "char \<Rightarrow> bool" where
  "is_hex_digit c = (c \<in> set ''0123456789abcdefABCDEF'')"

definition toLowerCase_char :: "char \<Rightarrow> char" where
  "toLowerCase_char c =
     (if 65 \<le> (of_char c :: nat) \<and> (of_char c :: nat) \<le> 90
      then (case c of Char b0 b1 b2 b3 b4 b5 b6 b7 \<Rightarrow> Char b0 b1 b2 b3 b4 True b6 b7)
      else c)"

definition castObjectId :: "string \<Rightarrow> cid option" where
  "castObjectId seg =
     (if length seg = 24 \<and> list_all is_hex_digit seg
      then Some (map toLowerCase_char seg) else None)"

section \<open>The handler with rounding and an earlier load\<close>

text \<open>
  One iteration of the loop body with every arithmetic result rounded by \<open>rd\<close>:
  \<^verbatim>\<open>product.stock -= item.quantity\<close> and
  \<^verbatim>\<open>totalAmount += product.price * item.quantity\<close> (the product is rounded, then the sum).
\<close>

definition purchase_item_rd ::
  "(number \<Rightarrow> number) \<Rightarrow> loop_state \<Rightarrow> line_item \<Rightarrow> error + loop_state" where
  "purchase_item_rd rd s item =
     (case docs s (product item) of
        None \<Rightarrow> Inl TypeError
      | Some p \<Rightarrow>
          if stock p \<ge> quantity item then
            Inr (s\<lparr>docs := (docs s)(product item \<mapsto> p\<lparr>stock := rd (stock p - quantity item)\<rparr>),
                   totalAmount := rd (totalAmount s + rd (product_doc.price p * quantity item)),
                   productsProcessed := productsProcessed s @ [item]\<rparr>)
          else
            Inr (s\<lparr>productsNotProcessed := productsNotProcessed s @ [product item]\<rparr>))"

fun purchase_loop_rd ::
  "(number \<Rightarrow> number) \<Rightarrow> loop_state \<Rightarrow> line_item list \<Rightarrow> (error \<times> loop_state) + loop_state" where
  "purchase_loop_rd rd s [] = Inr s"
| "purchase_loop_rd rd s (item # items) =
     (case purchase_item_rd rd s item of
        Inl e \<Rightarrow> Inl (e, s)
      | Inr s' \<Rightarrow> purchase_loop_rd rd s' items)"

text \<open>
  The stored products after the loop, when the loop ran on documents loaded earlier:
  \<^verbatim>\<open>product.save()\<close> writes the document of each processed line item over the stored
  one (the last save of a product writes its document as it is at the end of the loop),
  and no other product is written.
\<close>

definition saved_products :: "(pid \<rightharpoonup> product_doc) \<Rightarrow> loop_state \<Rightarrow> (pid \<rightharpoonup> product_doc)" where
  "saved_products stored s =
     (\<lambda>k. if k \<in> product ` set (productsProcessed s) then docs s k else stored k)"

text \<open>
  The handler from its first \<^verbatim>\<open>await\<close> on: \<open>loaded\<close> and \<open>ds\<close> are the cart and the
  populated product documents that \<^verbatim>\<open>Cart.findById(cid).populate("products.product")\<close>
  returned, and \<open>d\<close> is the database on which the rest of the handler runs. They differ
  when another request has written in between.
\<close>

definition purchase_loaded ::
  "(number \<Rightarrow> number) \<Rightarrow> string \<Rightarrow> nat \<Rightarrow> cid \<Rightarrow> cart option \<Rightarrow> (pid \<rightharpoonup> product_doc)
     \<Rightarrow> db \<Rightarrow> response \<times> db" where
  "purchase_loaded rd rnd now c loaded ds d =
     (case loaded of
        None \<Rightarrow> (NotFound, d)
      | Some crt \<Rightarrow>
          (case cart.user crt of
             None \<Rightarrow> (BadRequest, d)
           | Some u \<Rightarrow>
               (case purchase_loop_rd rd (initial_state ds) (cart.products crt) of
                  Inl (e, s) \<Rightarrow> (ServerError, d\<lparr>Products := saved_products (Products d) s\<rparr>)
                | Inr s \<Rightarrow>
                    (case ticket_products (docs s) (productsProcessed s) of
                       Inl e \<Rightarrow> (ServerError, d\<lparr>Products := saved_products (Products d) s\<rparr>)
                     | Inr lines \<Rightarrow>
                         (let t = \<lparr>code = generateUniqueCode rnd, ticket.user = u,
                                   ticket.products = lines, total = totalAmount s,
                                   createdAt = now\<rparr>;
                              d1 = d\<lparr>Products := saved_products (Products d) s,
                                     Tickets := Tickets d @ [t]\<rparr>
                          in (case filter_not_processed (docs s) (productsNotProcessed s)
                                     (cart.products crt) of
                                Inl e \<Rightarrow> (ServerError, d1)
                              | Inr r \<Rightarrow>
                                  (Ok t (productsNotProcessed s),
                                   d1\<lparr>Carts := (Carts d)(c \<mapsto> crt\<lparr>cart.products := r\<rparr>)\<rparr>)))))))"

text \<open>
  The route \<^verbatim>\<open>POST /:cid/purchase\<close> on the raw path segment \<open>seg\<close>, run with no other
  request in between: a failed cast is answered by the \<^verbatim>\<open>catch\<close> block with 500.
\<close>

definition post_purchase ::
  "(string \<Rightarrow> cid option) \<Rightarrow> (number \<Rightarrow> number) \<Rightarrow> string \<Rightarrow> nat \<Rightarrow> string \<Rightarrow> db
     \<Rightarrow> response \<times> db" where
  "post_purchase cast rd rnd now seg d =
     (case cast seg of
        None \<Rightarrow> (ServerError, d)
      | Some c \<Rightarrow> purchase_loaded rd rnd now c (Carts d c) (Products d) d)"

section \<open>Quantities the specification speaks of\<close>

text \<open>
  The sum of quantity times unit price over priced lines, and the quantity reserved of
  one product by a list of lines (cart items or ticket lines).
\<close>

definition items_total :: "ticket_item list \<Rightarrow> number" where
  "items_total ls = sum_list (map (\<lambda>l. quantity l * ticket_item.price l) ls)"

definition reserved :: "pid \<Rightarrow> 'a line_item_scheme list \<Rightarrow> number" where
  "reserved k ls = sum_list (map quantity (filter (\<lambda>l. product l = k) ls))"

text \<open>
  The same sum as the program accumulates it: in line order from 0, each product and
  each partial sum rounded by \<open>rd\<close>. \<open>rounds_nowhere rd acc ls\<close> says that, starting
  from \<open>acc\<close>, none of these products and partial sums is changed by \<open>rd\<close>.
\<close>

definition total_rd :: "(number \<Rightarrow> number) \<Rightarrow> ticket_item list \<Rightarrow> number" where
  "total_rd rd ls = foldl (\<lambda>acc l. rd (acc + rd (ticket_item.price l * quantity l))) 0 ls"

fun rounds_nowhere :: "(number \<Rightarrow> number) \<Rightarrow> number \<Rightarrow> ticket_item list \<Rightarrow> bool" where
  "rounds_nowhere rd acc [] = True"
| "rounds_nowhere rd acc (l # ls) =
     (rd (ticket_item.price l * quantity l) = ticket_item.price l * quantity l
      \<and> rd (acc + ticket_item.price l * quantity l) = acc + ticket_item.price l * quantity l
      \<and> rounds_nowhere rd (acc + ticket_item.price l * quantity l) ls)"

text \<open>A ticket line without its price: the cart line item it was made from.\<close>

definition unpriced :: "ticket_item \<Rightarrow> line_item" where
  "unpriced l = \<lparr>product = product l, quantity = quantity l\<rparr>"

section \<open>Example databases\<close>

text \<open>
  The example scenario of the specification: cart \<open>C1\<close> of user \<open>U1\<close> holds two units of
  \<open>P1\<close> (stock 10, price 3) and five units of \<open>P2\<close> (stock 1, price 7).
\<close>

definition scenario_db :: db where
  "scenario_db =
     \<lparr>Products = [''P1'' \<mapsto> \<lparr>product_doc.price = 3, stock = 10\<rparr>,
                  ''P2'' \<mapsto> \<lparr>product_doc.price = 7, stock = 1\<rparr>],
      Carts = [''C1'' \<mapsto> \<lparr>cart.user = Some ''U1'',
                 cart.products = [\<lparr>product = ''P1'', quantity = 2\<rparr>,
                                  \<lparr>product = ''P2'', quantity = 5\<rparr>]\<rparr>],
      Tickets = []\<rparr>"

definition scenario_ticket :: "string \<Rightarrow> nat \<Rightarrow> ticket" where
  "scenario_ticket rnd now =
     \<lparr>code = generateUniqueCode rnd, ticket.user = ''U1'',
      ticket.products = [\<lparr>product = ''P1'', quantity = 2, ticket_item.price = 3\<rparr>],
      total = 6, createdAt = now\<rparr>"

text \<open>A cart that has line items but no user.\<close>

definition no_user_db :: db where
  "no_user_db =
     \<lparr>Products = [''P1'' \<mapsto> \<lparr>product_doc.price = 3, stock = 10\<rparr>],
      Carts = [''C2'' \<mapsto> \<lparr>cart.user = None,
                 cart.products = [\<lparr>product = ''P1'', quantity = 2\<rparr>]\<rparr>],
      Tickets = []\<rparr>"

text \<open>
  A cart that lists the same product in two line items (quantities 2 and 4) while the
  product has stock 5.
\<close>

definition duplicate_db :: db where
  "duplicate_db =
     \<lparr>Products = [''P'' \<mapsto> \<lparr>product_doc.price = 1, stock = 5\<rparr>],
      Carts = [''C1'' \<mapsto> \<lparr>cart.user = Some ''U1'',
                 cart.products = [\<lparr>product = ''P'', quantity = 2\<rparr>,
                                  \<lparr>product = ''P'', quantity = 4\<rparr>]\<rparr>],
      Tickets = []\<rparr>"

text \<open>
  A cart whose second line item refers to a product \<open>P9\<close> that does not exist.
\<close>

definition dangling_db :: db where
  "dangling_db =
     \<lparr>Products = [''P1'' \<mapsto> \<lparr>product_doc.price = 3, stock = 10\<rparr>],
      Carts = [''C1'' \<mapsto> \<lparr>cart.user = Some ''U1'',
                 cart.products = [\<lparr>product = ''P1'', quantity = 2\<rparr>,
                                  \<lparr>product = ''P9'', quantity = 1\<rparr>]\<rparr>],
      Tickets = []\<rparr>"

text \<open>A cart with one line item of quantity 0 for a product whose stock is 0.\<close>

definition zero_db :: db where
  "zero_db =
     \<lparr>Products = [''P0'' \<mapsto> \<lparr>product_doc.price = 4, stock = 0\<rparr>],
      Carts = [''C3'' \<mapsto> \<lparr>cart.user = Some ''U1'',
                 cart.products = [\<lparr>product = ''P0'', quantity = 0\<rparr>]\<rparr>],
      Tickets = []\<rparr>"

text \<open>
  Two products priced at the doubles written \<^verbatim>\<open>0.1\<close> and \<^verbatim>\<open>0.2\<close>, one unit of each in
  the cart. The cart identifier is a well-formed ObjectId string.
\<close>

definition decimal_db :: db where
  "decimal_db =
     \<lparr>Products = [''A'' \<mapsto> \<lparr>product_doc.price = 3602879701896397 / 36028797018963968, stock = 1\<rparr>,
                  ''B'' \<mapsto> \<lparr>product_doc.price = 3602879701896397 / 18014398509481984, stock = 1\<rparr>],
      Carts = [''64b7f0c2a1d3e4f5a6b7c8d9'' \<mapsto> \<lparr>cart.user = Some ''U1'',
                 cart.products = [\<lparr>product = ''A'', quantity = 1\<rparr>,
                                  \<lparr>product = ''B'', quantity = 1\<rparr>]\<rparr>],
      Tickets = []\<rparr>"

text \<open>The example scenario under a cart identifier that is a well-formed ObjectId string.\<close>

definition scenario_hex_db :: db where
  "scenario_hex_db =
     \<lparr>Products = [''P1'' \<mapsto> \<lparr>product_doc.price = 3, stock = 10\<rparr>,
                  ''P2'' \<mapsto> \<lparr>product_doc.price = 7, stock = 1\<rparr>],
      Carts = [''64b7f0c2a1d3e4f5a6b7c8d9'' \<mapsto> \<lparr>cart.user = Some ''U1'',
                 cart.products = [\<lparr>product = ''P1'', quantity = 2\<rparr>,
                                  \<lparr>product = ''P2'', quantity = 5\<rparr>]\<rparr>],
      Tickets = []\<rparr>"

text \<open>
  Two carts of two users, each asking for four units of a product with stock 5, and
  the database after the checkout of the first cart when both requests had loaded their
  cart before either wrote.
\<close>

definition race_db :: db where
  "race_db =
     \<lparr>Products = [''P'' \<mapsto> \<lparr>product_doc.price = 1, stock = 5\<rparr>],
      Carts = [''CA'' \<mapsto> \<lparr>cart.user = Some ''UA'',
                 cart.products = [\<lparr>product = ''P'', quantity = 4\<rparr>]\<rparr>,
               ''CB'' \<mapsto> \<lparr>cart.user = Some ''UB'',
                 cart.products = [\<lparr>product = ''P'', quantity = 4\<rparr>]\<rparr>],
      Tickets = []\<rparr>"

definition race_after_A :: "string \<Rightarrow> db" where
  "race_after_A rndA =
     snd (purchase_loaded double_round rndA 1 ''CA'' (Carts race_db ''CA'') (Products race_db)
            race_db)"

section \<open>Properties of the loop\<close>

lemma purchase_item_docs:
  assumes "purchase_item s item = Inr s'" and "docs s k = Some p"
  shows "\<exists>p'. docs s' k = Some p' \<and> product_doc.price p' = product_doc.price p
           \<and> (0 \<le> stock p \<longrightarrow> 0 \<le> stock p')
           \<and> stock p' = stock p - reserved k (productsProcessed s') + reserved k (productsProcessed s)"
  using assms by (auto simp: purchase_item_def reserved_def split: option.splits if_splits)

lemma purchase_item_dom:
  assumes "purchase_item s item = Inr s'"
  shows "dom (docs s') = dom (docs s)"
  using assms by (auto simp: purchase_item_def split: option.splits if_splits)

lemma purchase_loop_docs:
  assumes "purchase_loop s items = Inr s'" and "docs s k = Some p"
  shows "\<exists>p'. docs s' k = Some p' \<and> product_doc.price p' = product_doc.price p
           \<and> (0 \<le> stock p \<longrightarrow> 0 \<le> stock p')
           \<and> stock p' = stock p - reserved k (productsProcessed s') + reserved k (productsProcessed s)"
  using assms
proof (induction items arbitrary: s p)
  case Nil
  then show ?case by simp
next
  case (Cons item items)
  from Cons.prems(1) obtain s1 where s1: "purchase_item s item = Inr s1"
    and rest: "purchase_loop s1 items = Inr s'"
    by (auto split: sum.splits)
  from purchase_item_docs[OF s1 Cons.prems(2)] obtain p1 where
    p1: "docs s1 k = Some p1" "product_doc.price p1 = product_doc.price p"
        "0 \<le> stock p \<longrightarrow> 0 \<le> stock p1"
        "stock p1 = stock p - reserved k (productsProcessed s1) + reserved k (productsProcessed s)"
    by blast
  from Cons.IH[OF rest p1(1)] obtain p' where
    p': "docs s' k = Some p'" "product_doc.price p' = product_doc.price p1"
        "0 \<le> stock p1 \<longrightarrow> 0 \<le> stock p'"
        "stock p' = stock p1 - reserved k (productsProcessed s') + reserved k (productsProcessed s1)"
    by blast
  show ?case using p1 p' by auto
qed

lemma purchase_loop_dom:
  assumes "purchase_loop s items = Inr s'"
  shows "dom (docs s') = dom (docs s)"
  using assms
proof (induction items arbitrary: s)
  case Nil
  then show ?case by simp
next
  case (Cons a items)
  from Cons.prems obtain s1 where s1: "purchase_item s a = Inr s1"
    and rest: "purchase_loop s1 items = Inr s'"
    by (auto split: sum.splits)
  from Cons.IH[OF rest] purchase_item_dom[OF s1] show ?case by simp
qed

lemma purchase_loop_resolved:
  assumes "purchase_loop s items = Inr s'" and "item \<in> set items"
  shows "product item \<in> dom (docs s)"
  using assms
proof (induction items arbitrary: s)
  case Nil
  then show ?case by simp
next
  case (Cons a items)
  from Cons.prems(1) obtain s1 where s1: "purchase_item s a = Inr s1"
    and rest: "purchase_loop s1 items = Inr s'"
    by (auto split: sum.splits)
  show ?case
  proof (cases "item = a")
    case True
    with s1 show ?thesis by (auto simp: purchase_item_def split: option.splits)
  next
    case False
    with Cons.prems(2) have "item \<in> set items" by simp
    from Cons.IH[OF rest this] purchase_item_dom[OF s1] show ?thesis by simp
  qed
qed

lemma purchase_loop_total:
  assumes "\<forall>item \<in> set items. product item \<in> dom (docs s)"
  shows "\<exists>s'. purchase_loop s items = Inr s'"
  using assms
proof (induction items arbitrary: s)
  case Nil
  then show ?case by simp
next
  case (Cons a items)
  then obtain p where p: "docs s (product a) = Some p" by auto
  then obtain s1 where s1: "purchase_item s a = Inr s1"
    by (cases "quantity a \<le> stock p") (auto simp: purchase_item_def)
  from Cons.prems purchase_item_dom[OF s1]
  have "\<forall>item \<in> set items. product item \<in> dom (docs s1)" by simp
  from Cons.IH[OF this] s1 show ?case by simp
qed

lemma purchase_loop_Inl:
  assumes "purchase_loop s items = Inl (e, s1)"
  shows "\<exists>n < length items. purchase_loop s (take n items) = Inr s1"
  using assms
proof (induction items arbitrary: s)
  case Nil
  then show ?case by simp
next
  case (Cons a items)
  show ?case
  proof (cases "purchase_item s a")
    case (Inl e')
    with Cons.prems have "s1 = s" by simp
    then have "purchase_loop s (take 0 (a # items)) = Inr s1" by simp
    then show ?thesis by blast
  next
    case (Inr s2)
    with Cons.prems have "purchase_loop s2 items = Inl (e, s1)" by simp
    from Cons.IH[OF this] obtain n where n: "n < length items"
      "purchase_loop s2 (take n items) = Inr s1" by blast
    with Inr have "purchase_loop s (take (Suc n) (a # items)) = Inr s1" by simp
    moreover have "Suc n < length (a # items)" using n by simp
    ultimately show ?thesis by blast
  qed
qed

lemma ticket_products_unpriced:
  assumes "ticket_products ds items = Inr ts"
  shows "map unpriced ts = items"
  using assms
  by (induction items arbitrary: ts) (auto simp: unpriced_def split: option.splits sum.splits)

lemma ticket_products_price:
  assumes "ticket_products ds items = Inr ts" and "l \<in> set ts"
  shows "\<exists>p. ds (product l) = Some p \<and> ticket_item.price l = product_doc.price p"
  using assms
  by (induction items arbitrary: ts) (auto split: option.splits sum.splits)

lemma ticket_products_append:
  assumes "ticket_products ds xs = Inr a" and "ticket_products ds ys = Inr b"
  shows "ticket_products ds (xs @ ys) = Inr (a @ b)"
  using assms
  by (induction xs arbitrary: a) (auto split: option.splits sum.splits)

lemma ticket_products_cong:
  assumes "\<And>k. map_option product_doc.price (ds k) = map_option product_doc.price (ds' k)"
  shows "ticket_products ds items = ticket_products ds' items"
proof (induction items)
  case Nil
  show ?case by simp
next
  case (Cons a items)
  from assms[of "product a"] Cons show ?case
    by (cases "ds (product a)"; cases "ds' (product a)") (auto split: sum.splits)
qed

lemma items_total_append: "items_total (a @ b) = items_total a + items_total b"
  by (simp add: items_total_def)

lemma purchase_item_total:
  assumes step: "purchase_item s item = Inr s'"
    and lines: "ticket_products (docs s) (productsProcessed s) = Inr ts"
    and tot: "totalAmount s = items_total ts"
  shows "\<exists>ts'. ticket_products (docs s') (productsProcessed s') = Inr ts'
            \<and> totalAmount s' = items_total ts'"
proof -
  from step obtain p where p: "docs s (product item) = Some p"
    by (auto simp: purchase_item_def split: option.splits)
  show ?thesis
  proof (cases "quantity item \<le> stock p")
    case True
    with step p have s': "docs s' = (docs s)(product item \<mapsto> p\<lparr>stock := stock p - quantity item\<rparr>)"
      "totalAmount s' = totalAmount s + product_doc.price p * quantity item"
      "productsProcessed s' = productsProcessed s @ [item]"
      by (auto simp: purchase_item_def)
    have same: "ticket_products (docs s') xs = ticket_products (docs s) xs" for xs
      by (rule ticket_products_cong) (simp add: s'(1) p)
    let ?l = "\<lparr>product = product item, quantity = quantity item,
               ticket_item.price = product_doc.price p\<rparr>"
    have one: "ticket_products (docs s) [item] = Inr [?l]" using p by simp
    have "ticket_products (docs s') (productsProcessed s') = Inr (ts @ [?l])"
      unfolding same s'(3) by (rule ticket_products_append[OF lines one])
    moreover have "totalAmount s' = items_total (ts @ [?l])"
      by (simp add: s'(2) tot items_total_append) (simp add: items_total_def)
    ultimately show ?thesis by blast
  next
    case False
    with step p have "docs s' = docs s" "totalAmount s' = totalAmount s"
      "productsProcessed s' = productsProcessed s"
      by (auto simp: purchase_item_def)
    with lines tot show ?thesis by simp
  qed
qed

lemma purchase_loop_ticket_total:
  assumes "purchase_loop s items = Inr s'"
    and "ticket_products (docs s) (productsProcessed s) = Inr ts"
    and "totalAmount s = items_total ts"
  shows "\<exists>ts'. ticket_products (docs s') (productsProcessed s') = Inr ts'
            \<and> totalAmount s' = items_total ts'"
  using assms
proof (induction items arbitrary: s ts)
  case Nil
  then show ?case by simp
next
  case (Cons a items)
  from Cons.prems(1) obtain s1 where s1: "purchase_item s a = Inr s1"
    and rest: "purchase_loop s1 items = Inr s'"
    by (auto split: sum.splits)
  from purchase_item_total[OF s1 Cons.prems(2,3)] obtain ts1 where
    "ticket_products (docs s1) (productsProcessed s1) = Inr ts1"
    "totalAmount s1 = items_total ts1" by blast
  from Cons.IH[OF rest this] show ?case .
qed

lemma filter_not_processed_Inr:
  assumes "\<forall>item \<in> set items. product item \<in> dom ds"
  shows "filter_not_processed ds np items = Inr (filter (\<lambda>item. product item \<in> set np) items)"
  using assms by (induction items) auto

lemma initial_state_simps [simp]:
  "docs (initial_state ds) = ds"
  "totalAmount (initial_state ds) = 0"
  "productsNotProcessed (initial_state ds) = []"
  "productsProcessed (initial_state ds) = []"
  by (simp_all add: initial_state_def)

lemma purchase_success:
  assumes crt: "Carts d c = Some crt" and u: "cart.user crt = Some u"
    and loop: "purchase_loop (initial_state (Products d)) (cart.products crt) = Inr s"
  shows "\<exists>lines. ticket_products (docs s) (productsProcessed s) = Inr lines
           \<and> totalAmount s = items_total lines
           \<and> purchase rnd now c d =
               (Ok \<lparr>code = generateUniqueCode rnd, ticket.user = u, ticket.products = lines,
                    total = totalAmount s, createdAt = now\<rparr> (productsNotProcessed s),
                d\<lparr>Products := docs s,
                  Tickets := Tickets d @ [\<lparr>code = generateUniqueCode rnd, ticket.user = u,
                     ticket.products = lines, total = totalAmount s, createdAt = now\<rparr>],
                  Carts := (Carts d)(c \<mapsto> crt\<lparr>cart.products :=
                     filter (\<lambda>item. product item \<in> set (productsNotProcessed s))
                       (cart.products crt)\<rparr>)\<rparr>)"
proof -
  have "ticket_products (docs (initial_state (Products d)))
          (productsProcessed (initial_state (Products d))) = Inr []"
    "totalAmount (initial_state (Products d)) = items_total []"
    by (simp_all add: items_total_def)
  from purchase_loop_ticket_total[OF loop this] obtain lines where
    lines: "ticket_products (docs s) (productsProcessed s) = Inr lines"
      "totalAmount s = items_total lines" by blast
  have "\<forall>item \<in> set (cart.products crt). product item \<in> dom (docs s)"
    using purchase_loop_resolved[OF loop] purchase_loop_dom[OF loop] by simp
  from filter_not_processed_Inr[OF this]
  have res: "filter_not_processed (docs s) (productsNotProcessed s) (cart.products crt) =
      Inr (filter (\<lambda>item. product item \<in> set (productsNotProcessed s)) (cart.products crt))" .
  show ?thesis
    using lines by (simp add: purchase_def crt u loop res Let_def)
qed

lemma purchase_Ok_loop:
  assumes "purchase rnd now c d = (Ok t np, d')"
  shows "\<exists>crt u s. Carts d c = Some crt \<and> cart.user crt = Some u
           \<and> purchase_loop (initial_state (Products d)) (cart.products crt) = Inr s"
  using assms
  by (auto simp: purchase_def Let_def split: option.splits sum.splits prod.splits)

lemma purchase_loop_stock:
  assumes loop: "purchase_loop (initial_state ds) items = Inr s"
    and p: "ds k = Some p" and nonneg: "0 \<le> stock p"
  shows "\<exists>p'. docs s k = Some p' \<and> 0 \<le> stock p'
           \<and> product_doc.price p' = product_doc.price p
           \<and> stock p' = stock p - reserved k (productsProcessed s)"
proof -
  have "docs (initial_state ds) k = Some p" using p by simp
  from purchase_loop_docs[OF loop this] nonneg show ?thesis
    by (auto simp: reserved_def)
qed

lemma reserved_unpriced: "reserved k (map unpriced ls) = reserved k ls"
  by (induction ls) (auto simp: reserved_def unpriced_def)

lemma purchase_item_exact:
  assumes "docs s (product item) = Some q"
  shows "\<exists>s'. purchase_item s item = Inr s'
           \<and> docs s' = (if quantity item \<le> stock q
                         then (docs s)(product item \<mapsto> q\<lparr>stock := stock q - quantity item\<rparr>)
                         else docs s)
           \<and> productsProcessed s' =
                productsProcessed s @ (if quantity item \<le> stock q then [item] else [])"
  using assms by (simp add: purchase_item_def)

lemma purchase_loop_processed_mono:
  assumes "purchase_loop s items = Inr s'"
  shows "set (productsProcessed s) \<subseteq> set (productsProcessed s')"
  using assms
proof (induction items arbitrary: s)
  case Nil
  then show ?case by simp
next
  case (Cons a items)
  from Cons.prems obtain s1 where s1: "purchase_item s a = Inr s1"
    and rest: "purchase_loop s1 items = Inr s'"
    by (auto split: sum.splits)
  from s1 have "set (productsProcessed s) \<subseteq> set (productsProcessed s1)"
    by (auto simp: purchase_item_def split: option.splits if_splits)
  with Cons.IH[OF rest] show ?case by blast
qed

lemma purchase_loop_zero_quantity:
  assumes "purchase_loop s items = Inr s'" and "item \<in> set items"
    and "quantity item = 0" and "docs s (product item) = Some p" and "0 \<le> stock p"
  shows "item \<in> set (productsProcessed s')"
  using assms
proof (induction items arbitrary: s p)
  case Nil
  then show ?case by simp
next
  case (Cons a items)
  from Cons.prems(1) obtain s1 where s1: "purchase_item s a = Inr s1"
    and rest: "purchase_loop s1 items = Inr s'"
    by (auto split: sum.splits)
  show ?case
  proof (cases "item = a")
    case True
    with s1 Cons.prems(3,4,5) have "item \<in> set (productsProcessed s1)"
      by (auto simp: purchase_item_def)
    with purchase_loop_processed_mono[OF rest] show ?thesis by blast
  next
    case False
    with Cons.prems(2) have mem: "item \<in> set items" by simp
    from purchase_item_docs[OF s1 Cons.prems(4)] Cons.prems(5) obtain p1 where
      "docs s1 (product item) = Some p1" "0 \<le> stock p1" by blast
    from Cons.IH[OF rest mem Cons.prems(3) this] show ?thesis .
  qed
qed

lemma disjoint_after_insert:
  assumes "B \<subseteq> A \<union> {x}" and "A \<inter> C = {}" and "x \<notin> C"
  shows "B \<inter> C = {}"
  using assms by blast

lemma purchase_item_not_processed:
  assumes "purchase_item s item = Inr s'"
  shows "productsNotProcessed s' = productsNotProcessed s
         \<or> productsNotProcessed s' = productsNotProcessed s @ [product item]"
  using assms by (auto simp: purchase_item_def split: option.splits if_splits)

lemma purchase_loop_not_processed:
  assumes "purchase_loop s items = Inr s'"
  shows "set (productsNotProcessed s) \<subseteq> set (productsNotProcessed s')
         \<and> set (productsNotProcessed s') \<subseteq> set (productsNotProcessed s) \<union> product ` set items"
  using assms
proof (induction items arbitrary: s)
  case Nil
  then show ?case by simp
next
  case (Cons a items)
  from Cons.prems obtain s1 where s1: "purchase_item s a = Inr s1"
    and rest: "purchase_loop s1 items = Inr s'"
    by (auto split: sum.splits)
  from purchase_item_not_processed[OF s1] Cons.IH[OF rest] show ?case by auto
qed

lemma purchase_loop_docs_other:
  assumes "purchase_loop s items = Inr s'" and "k \<notin> product ` set items"
  shows "docs s' k = docs s k"
  using assms
proof (induction items arbitrary: s)
  case Nil
  then show ?case by simp
next
  case (Cons a items)
  from Cons.prems(1) obtain s1 where s1: "purchase_item s a = Inr s1"
    and rest: "purchase_loop s1 items = Inr s'"
    by (auto split: sum.splits)
  from Cons.prems(2) have "k \<noteq> product a" "k \<notin> product ` set items" by auto
  with s1 Cons.IH[OF rest] show ?case
    by (auto simp: purchase_item_def split: option.splits if_splits)
qed

lemma purchase_loop_conservation:
  assumes "purchase_loop s items = Inr s'" and "distinct (map product items)"
    and "set (productsNotProcessed s) \<inter> product ` set items = {}"
  shows "mset (productsProcessed s')
           + mset (filter (\<lambda>item. product item \<in> set (productsNotProcessed s')) items)
         = mset (productsProcessed s) + mset items"
  using assms
proof (induction items arbitrary: s)
  case Nil
  then show ?case by simp
next
  case (Cons a items)
  from Cons.prems(1) obtain s1 where s1: "purchase_item s a = Inr s1"
    and rest: "purchase_loop s1 items = Inr s'"
    by (auto split: sum.splits)
  from Cons.prems(2) have dist: "distinct (map product items)"
    and fresh: "product a \<notin> product ` set items" by auto
  from s1 obtain p where p: "docs s (product a) = Some p"
    by (auto simp: purchase_item_def split: option.splits)
  note np = purchase_loop_not_processed[OF rest]
  show ?case
  proof (cases "quantity a \<le> stock p")
    case True
    with s1 p have s1': "productsProcessed s1 = productsProcessed s @ [a]"
      "productsNotProcessed s1 = productsNotProcessed s"
      by (auto simp: purchase_item_def)
    have "set (productsNotProcessed s1) \<inter> product ` set items = {}"
      using Cons.prems(3) s1'(2) by auto
    from Cons.IH[OF rest dist this]
    have "mset (productsProcessed s')
           + mset (filter (\<lambda>item. product item \<in> set (productsNotProcessed s')) items)
         = mset (productsProcessed s) + {#a#} + mset items"
      by (simp add: s1'(1))
    moreover have "product a \<notin> set (productsNotProcessed s')"
      using np fresh Cons.prems(3) s1'(2) by auto
    ultimately show ?thesis by simp
  next
    case False
    with s1 p have s1': "productsProcessed s1 = productsProcessed s"
      "productsNotProcessed s1 = productsNotProcessed s @ [product a]"
      by (auto simp: purchase_item_def)
    have "set (productsNotProcessed s1) \<inter> product ` set items = {}"
      using Cons.prems(3) s1'(2) fresh by auto
    from Cons.IH[OF rest dist this]
    have "mset (productsProcessed s')
           + mset (filter (\<lambda>item. product item \<in> set (productsNotProcessed s')) items)
         = mset (productsProcessed s) + mset items"
      by (simp add: s1'(1))
    moreover have "product a \<in> set (productsNotProcessed s')"
      using np s1'(2) by auto
    ultimately show ?thesis by simp
  qed
qed

lemma purchase_loop_all_fail:
  assumes "\<forall>item \<in> set items. \<exists>p. docs s (product item) = Some p \<and> \<not> quantity item \<le> stock p"
  shows "purchase_loop s items =
           Inr (s\<lparr>productsNotProcessed := productsNotProcessed s @ map product items\<rparr>)"
  using assms
proof (induction items arbitrary: s)
  case Nil
  then show ?case by simp
next
  case (Cons a items)
  from Cons.prems obtain p where p: "docs s (product a) = Some p" "\<not> quantity a \<le> stock p"
    by auto
  let ?s1 = "s\<lparr>productsNotProcessed := productsNotProcessed s @ [product a]\<rparr>"
  from p have s1: "purchase_item s a = Inr ?s1" by (simp add: purchase_item_def)
  from Cons.prems have "\<forall>item \<in> set items.
      \<exists>p. docs ?s1 (product item) = Some p \<and> \<not> quantity item \<le> stock p" by simp
  from Cons.IH[OF this] s1 show ?case by simp
qed

lemma purchase_loop_residual_fails:
  assumes "purchase_loop s items = Inr s'" and "distinct (map product items)"
    and "set (productsNotProcessed s) \<inter> product ` set items = {}"
    and "item \<in> set items" and "product item \<in> set (productsNotProcessed s')"
  shows "\<exists>p. docs s' (product item) = Some p \<and> \<not> quantity item \<le> stock p"
  using assms
proof (induction items arbitrary: s)
  case Nil
  then show ?case by simp
next
  case (Cons a items)
  from Cons.prems(1) obtain s1 where s1: "purchase_item s a = Inr s1"
    and rest: "purchase_loop s1 items = Inr s'"
    by (auto split: sum.splits)
  from Cons.prems(2) have dist: "distinct (map product items)"
    and fresh: "product a \<notin> product ` set items" by auto
  note np = purchase_loop_not_processed[OF rest]
  have "set (productsNotProcessed s1) \<subseteq> set (productsNotProcessed s) \<union> {product a}"
    using purchase_item_not_processed[OF s1] by auto
  moreover have "set (productsNotProcessed s) \<inter> product ` set items = {}"
    using Cons.prems(3) by auto
  ultimately have disj: "set (productsNotProcessed s1) \<inter> product ` set items = {}"
    using fresh by (rule disjoint_after_insert)
  show ?case
  proof (cases "item \<in> set items")
    case True
    from Cons.IH[OF rest dist disj True Cons.prems(5)] show ?thesis .
  next
    case False
    with Cons.prems(4) have eq: "item = a" by simp
    from Cons.prems(5) np fresh eq have in1: "product a \<in> set (productsNotProcessed s1)"
      by auto
    have notin: "product a \<notin> set (productsNotProcessed s)" using Cons.prems(3) by auto
    from s1 in1 notin obtain p where p: "docs s (product a) = Some p"
      "\<not> quantity a \<le> stock p" "docs s1 = docs s"
      by (auto simp: purchase_item_def split: option.splits if_splits)
    from purchase_loop_docs_other[OF rest fresh] p eq show ?thesis by simp
  qed
qed

lemma purchase_loop_not_processed_eq:
  assumes "purchase_loop s items = Inr s'" and "distinct (map product items)"
    and "set (productsNotProcessed s) \<inter> product ` set items = {}"
  shows "productsNotProcessed s @
           map product (filter (\<lambda>item. product item \<in> set (productsNotProcessed s')) items)
         = productsNotProcessed s'"
  using assms
proof (induction items arbitrary: s)
  case Nil
  then show ?case by simp
next
  case (Cons a items)
  from Cons.prems(1) obtain s1 where s1: "purchase_item s a = Inr s1"
    and rest: "purchase_loop s1 items = Inr s'"
    by (auto split: sum.splits)
  from Cons.prems(2) have dist: "distinct (map product items)"
    and fresh: "product a \<notin> product ` set items" by auto
  note np = purchase_loop_not_processed[OF rest]
  have "set (productsNotProcessed s1) \<subseteq> set (productsNotProcessed s) \<union> {product a}"
    using purchase_item_not_processed[OF s1] by auto
  moreover have "set (productsNotProcessed s) \<inter> product ` set items = {}"
    using Cons.prems(3) by auto
  ultimately have disj: "set (productsNotProcessed s1) \<inter> product ` set items = {}"
    using fresh by (rule disjoint_after_insert)
  note ih = Cons.IH[OF rest dist disj]
  from np have sub: "set (productsNotProcessed s') \<subseteq> set (productsNotProcessed s1) \<union> product ` set items"
    and sup: "set (productsNotProcessed s1) \<subseteq> set (productsNotProcessed s')" by simp_all
  have notin: "product a \<notin> set (productsNotProcessed s)" using Cons.prems(3) by auto
  from purchase_item_not_processed[OF s1] show ?case
  proof
    assume same: "productsNotProcessed s1 = productsNotProcessed s"
    from sub have "set (productsNotProcessed s') \<subseteq> set (productsNotProcessed s) \<union> product ` set items"
      by (simp only: same)
    with notin fresh have "product a \<notin> set (productsNotProcessed s')" by blast
    then have "productsNotProcessed s @
           map product (filter (\<lambda>item. product item \<in> set (productsNotProcessed s')) (a # items))
        = productsNotProcessed s1 @
           map product (filter (\<lambda>item. product item \<in> set (productsNotProcessed s')) items)"
      by (simp add: same)
    also have "\<dots> = productsNotProcessed s'" by (rule ih)
    finally show ?thesis .
  next
    assume app: "productsNotProcessed s1 = productsNotProcessed s @ [product a]"
    then have "product a \<in> set (productsNotProcessed s1)" by simp
    with sup have "product a \<in> set (productsNotProcessed s')" by blast
    then have "productsNotProcessed s @
           map product (filter (\<lambda>item. product item \<in> set (productsNotProcessed s')) (a # items))
        = productsNotProcessed s1 @
           map product (filter (\<lambda>item. product item \<in> set (productsNotProcessed s')) items)"
      by (simp add: app)
    also have "\<dots> = productsNotProcessed s'" by (rule ih)
    finally show ?thesis .
  qed
qed

section \<open>Properties of the handler with rounding\<close>

text \<open>Values of the rounding and of the cast used below, computed from the definitions.\<close>

lemma double_round_values:
  "double_round 0 = 0" "double_round 1 = 1" "double_round 4 = 4" "double_round 5 = 5"
  "double_round 6 = 6" "double_round 8 = 8"
  "double_round (3602879701896397 / 36028797018963968) = 3602879701896397 / 36028797018963968"
  "double_round (3602879701896397 / 18014398509481984) = 3602879701896397 / 18014398509481984"
  "double_round (10808639105689191 / 36028797018963968) = 1351079888211149 / 4503599627370496"
  "double_round (1 / 10) = 3602879701896397 / 36028797018963968"
  "double_round (1 / 5) = 3602879701896397 / 18014398509481984"
  by code_simp+

lemma castObjectId_values:
  "castObjectId ''C7'' = None"
  "castObjectId ''64b7f0c2a1d3e4f5a6b7c8d9'' = Some ''64b7f0c2a1d3e4f5a6b7c8d9''"
  "castObjectId ''64B7F0C2A1D3E4F5A6B7C8D9'' = Some ''64b7f0c2a1d3e4f5a6b7c8d9''"
  "castObjectId ''0123456789abcdef01234567'' = Some ''0123456789abcdef01234567''"
  by (simp_all add: castObjectId_def is_hex_digit_def toLowerCase_char_def)

text \<open>
  With exact arithmetic, and with the load taken from the database the handler then
  writes to, the general handler is \<open>purchase\<close>.
\<close>

lemma purchase_item_rd_id: "purchase_item_rd (\<lambda>x. x) s item = purchase_item s item"
  by (simp add: purchase_item_rd_def purchase_item_def)

lemma purchase_loop_rd_id: "purchase_loop_rd (\<lambda>x. x) s items = purchase_loop s items"
  by (induction items arbitrary: s) (simp_all add: purchase_item_rd_id split: sum.splits)

lemma purchase_loop_unprocessed:
  assumes "purchase_loop s items = Inr s'" and "k \<notin> product ` set (productsProcessed s')"
  shows "docs s' k = docs s k"
  using assms
proof (induction items arbitrary: s)
  case Nil
  then show ?case by simp
next
  case (Cons a items)
  from Cons.prems(1) obtain s1 where s1: "purchase_item s a = Inr s1"
    and rest: "purchase_loop s1 items = Inr s'"
    by (auto split: sum.splits)
  from purchase_loop_processed_mono[OF rest] Cons.prems(2)
  have notin: "k \<notin> product ` set (productsProcessed s1)" by blast
  with s1 have "docs s1 k = docs s k"
    by (auto simp: purchase_item_def split: option.splits if_splits)
  with Cons.IH[OF rest Cons.prems(2)] show ?case by simp
qed

lemma saved_products_Inr:
  assumes "purchase_loop (initial_state ds) items = Inr s"
  shows "saved_products ds s = docs s"
proof
  fix k
  show "saved_products ds s k = docs s k"
    using purchase_loop_unprocessed[OF assms, of k] by (simp add: saved_products_def)
qed

lemma saved_products_Inl:
  assumes "purchase_loop (initial_state ds) items = Inl (e, s)"
  shows "saved_products ds s = docs s"
proof -
  from purchase_loop_Inl[OF assms] obtain n where
    "purchase_loop (initial_state ds) (take n items) = Inr s" by blast
  then show ?thesis by (rule saved_products_Inr)
qed

lemma purchase_eq_loaded:
  "purchase rnd now c d = purchase_loaded (\<lambda>x. x) rnd now c (Carts d c) (Products d) d"
proof (cases "Carts d c")
  case None
  then show ?thesis by (simp add: purchase_def purchase_loaded_def)
next
  case (Some crt)
  show ?thesis
  proof (cases "cart.user crt")
    case None
    with Some show ?thesis by (simp add: purchase_def purchase_loaded_def)
  next
    case (Some u)
    show ?thesis
    proof (cases "purchase_loop (initial_state (Products d)) (cart.products crt)")
      case (Inl es)
      obtain e s where es: "es = (e, s)" by (cases es)
      from saved_products_Inl[OF Inl[unfolded es]] \<open>Carts d c = Some crt\<close> Some Inl es
      show ?thesis
        by (simp add: purchase_def purchase_loaded_def purchase_loop_rd_id)
    next
      case (Inr s)
      from saved_products_Inr[OF Inr] \<open>Carts d c = Some crt\<close> Some Inr
      show ?thesis
        by (simp add: purchase_def purchase_loaded_def purchase_loop_rd_id split: sum.splits)
    qed
  qed
qed

lemma purchase_item_rd_price:
  assumes "purchase_item_rd rd s item = Inr s'"
  shows "map_option product_doc.price (docs s' k) = map_option product_doc.price (docs s k)"
  using assms by (auto simp: purchase_item_rd_def split: option.splits if_splits)

lemma purchase_loop_rd_price:
  assumes "purchase_loop_rd rd s items = Inr s'"
  shows "map_option product_doc.price (docs s' k) = map_option product_doc.price (docs s k)"
  using assms
proof (induction items arbitrary: s)
  case Nil
  then show ?case by simp
next
  case (Cons a items)
  from Cons.prems obtain s1 where s1: "purchase_item_rd rd s a = Inr s1"
    and rest: "purchase_loop_rd rd s1 items = Inr s'"
    by (auto split: sum.splits)
  from Cons.IH[OF rest] purchase_item_rd_price[OF s1, of k] show ?case by simp
qed

lemma total_rd_snoc:
  "total_rd rd (ls @ [l]) = rd (total_rd rd ls + rd (ticket_item.price l * quantity l))"
  by (simp add: total_rd_def)

lemma purchase_item_rd_total:
  assumes step: "purchase_item_rd rd s item = Inr s'"
    and lines: "ticket_products (docs s) (productsProcessed s) = Inr ts"
    and tot: "totalAmount s = total_rd rd ts"
  shows "\<exists>ts'. ticket_products (docs s') (productsProcessed s') = Inr ts'
            \<and> totalAmount s' = total_rd rd ts'"
proof -
  from step obtain p where p: "docs s (product item) = Some p"
    by (auto simp: purchase_item_rd_def split: option.splits)
  have same: "ticket_products (docs s') xs = ticket_products (docs s) xs" for xs
    by (rule ticket_products_cong) (rule purchase_item_rd_price[OF step])
  show ?thesis
  proof (cases "quantity item \<le> stock p")
    case True
    with step p have s':
      "totalAmount s' = rd (totalAmount s + rd (product_doc.price p * quantity item))"
      "productsProcessed s' = productsProcessed s @ [item]"
      by (auto simp: purchase_item_rd_def)
    let ?l = "\<lparr>product = product item, quantity = quantity item,
               ticket_item.price = product_doc.price p\<rparr>"
    have one: "ticket_products (docs s) [item] = Inr [?l]" using p by simp
    have "ticket_products (docs s') (productsProcessed s') = Inr (ts @ [?l])"
      unfolding same s'(2) by (rule ticket_products_append[OF lines one])
    moreover have "totalAmount s' = total_rd rd (ts @ [?l])"
      by (simp add: s'(1) tot total_rd_snoc)
    ultimately show ?thesis by blast
  next
    case False
    with step p have "totalAmount s' = totalAmount s"
      "productsProcessed s' = productsProcessed s"
      by (auto simp: purchase_item_rd_def)
    with lines tot same show ?thesis by simp
  qed
qed

lemma purchase_loop_rd_total:
  assumes "purchase_loop_rd rd s items = Inr s'"
    and "ticket_products (docs s) (productsProcessed s) = Inr ts"
    and "totalAmount s = total_rd rd ts"
  shows "\<exists>ts'. ticket_products (docs s') (productsProcessed s') = Inr ts'
            \<and> totalAmount s' = total_rd rd ts'"
  using assms
proof (induction items arbitrary: s ts)
  case Nil
  then show ?case by simp
next
  case (Cons a items)
  from Cons.prems(1) obtain s1 where s1: "purchase_item_rd rd s a = Inr s1"
    and rest: "purchase_loop_rd rd s1 items = Inr s'"
    by (auto split: sum.splits)
  from purchase_item_rd_total[OF s1 Cons.prems(2,3)] obtain ts1 where
    "ticket_products (docs s1) (productsProcessed s1) = Inr ts1"
    "totalAmount s1 = total_rd rd ts1" by blast
  from Cons.IH[OF rest this] show ?case .
qed

lemma purchase_loaded_Ok:
  assumes "purchase_loaded rd rnd now c loaded ds d = (Ok t np, d')"
  shows "\<exists>crt u s lines. loaded = Some crt \<and> cart.user crt = Some u
           \<and> purchase_loop_rd rd (initial_state ds) (cart.products crt) = Inr s
           \<and> ticket_products (docs s) (productsProcessed s) = Inr lines
           \<and> ticket.products t = lines \<and> total t = totalAmount s
           \<and> Tickets d' = Tickets d @ [t]"
  using assms
  by (auto simp: purchase_loaded_def Let_def split: option.splits sum.splits prod.splits)

lemma total_rd_exact: "total_rd (\<lambda>x. x) ls = items_total ls"
proof -
  have "foldl (\<lambda>acc l. acc + ticket_item.price l * quantity l) a ls
        = a + sum_list (map (\<lambda>l. quantity l * ticket_item.price l) ls)" for a
    by (induction ls arbitrary: a) (simp_all add: algebra_simps)
  from this[of 0] show ?thesis by (simp add: total_rd_def items_total_def)
qed

lemma ticket_total_rd:
  assumes run: "post_purchase cast rd rnd now seg d = (Ok t np, d')"
  shows "total t = total_rd rd (ticket.products t)
       \<and> (\<forall>l \<in> set (ticket.products t).
             \<exists>p. Products d (product l) = Some p \<and> ticket_item.price l = product_doc.price p)
       \<and> Tickets d' = Tickets d @ [t]"
proof -
  from run obtain c where c: "cast seg = Some c"
    and run': "purchase_loaded rd rnd now c (Carts d c) (Products d) d = (Ok t np, d')"
    by (auto simp: post_purchase_def split: option.splits)
  from purchase_loaded_Ok[OF run'] obtain crt :: cart and u s lines where
    loop: "purchase_loop_rd rd (initial_state (Products d)) (cart.products crt) = Inr s"
    and lines: "ticket_products (docs s) (productsProcessed s) = Inr lines"
      "ticket.products t = lines" "total t = totalAmount s"
      "Tickets d' = Tickets d @ [t]"
    by blast
  have "ticket_products (docs (initial_state (Products d)))
          (productsProcessed (initial_state (Products d))) = Inr []"
    "totalAmount (initial_state (Products d)) = total_rd rd []"
    by (simp_all add: total_rd_def)
  from purchase_loop_rd_total[OF loop this] lines(1)
  have tot: "totalAmount s = total_rd rd lines" by auto
  have "\<exists>p. Products d (product l) = Some p \<and> ticket_item.price l = product_doc.price p"
    if "l \<in> set lines" for l
  proof -
    from ticket_products_price[OF lines(1) that] obtain p' where
      p': "docs s (product l) = Some p'" "ticket_item.price l = product_doc.price p'" by blast
    from purchase_loop_rd_price[OF loop, of "product l"] p'(1)
    obtain p where "Products d (product l) = Some p" "product_doc.price p = product_doc.price p'"
      by (cases "Products d (product l)") auto
    with p'(2) show ?thesis by simp
  qed
  with lines tot show ?thesis by simp
qed

lemma rounds_nowhere_exact:
  assumes "rounds_nowhere rd acc ls"
  shows "foldl (\<lambda>a l. rd (a + rd (ticket_item.price l * quantity l))) acc ls
         = acc + items_total ls"
  using assms
proof (induction ls arbitrary: acc)
  case Nil
  then show ?case by (simp add: items_total_def)
next
  case (Cons l ls)
  from Cons.prems have
    a: "rd (ticket_item.price l * quantity l) = ticket_item.price l * quantity l"
    and b: "rd (acc + ticket_item.price l * quantity l) = acc + ticket_item.price l * quantity l"
    and c: "rounds_nowhere rd (acc + ticket_item.price l * quantity l) ls"
    by simp_all
  from Cons.IH[OF c] a b show ?case
    by (simp add: items_total_def algebra_simps)
qed

lemma total_rd_rounds_nowhere:
  assumes "rounds_nowhere rd 0 ls"
  shows "total_rd rd ls = items_total ls"
  using rounds_nowhere_exact[OF assms] by (simp add: total_rd_def)

lemma scenario_hex_purchase:
  "post_purchase castObjectId double_round rnd now ''64b7f0c2a1d3e4f5a6b7c8d9'' scenario_hex_db =
     (Ok (scenario_ticket rnd now) [''P2''],
      \<lparr>Products = [''P1'' \<mapsto> \<lparr>product_doc.price = 3, stock = 8\<rparr>,
                   ''P2'' \<mapsto> \<lparr>product_doc.price = 7, stock = 1\<rparr>],
       Carts = [''64b7f0c2a1d3e4f5a6b7c8d9'' \<mapsto> \<lparr>cart.user = Some ''U1'',
                  cart.products = [\<lparr>product = ''P2'', quantity = 5\<rparr>]\<rparr>],
       Tickets = [scenario_ticket rnd now]\<rparr>)"
  by (simp add: post_purchase_def purchase_loaded_def purchase_item_rd_def scenario_hex_db_def
      scenario_ticket_def castObjectId_values double_round_values
      saved_products_def Let_def fun_eq_iff)

lemma decimal_purchase:
  "post_purchase castObjectId double_round rnd now ''64b7f0c2a1d3e4f5a6b7c8d9'' decimal_db =
     (Ok \<lparr>code = generateUniqueCode rnd, ticket.user = ''U1'',
          ticket.products =
            [\<lparr>product = ''A'', quantity = 1,
              ticket_item.price = 3602879701896397 / 36028797018963968\<rparr>,
             \<lparr>product = ''B'', quantity = 1,
              ticket_item.price = 3602879701896397 / 18014398509481984\<rparr>],
          total = 1351079888211149 / 4503599627370496, createdAt = now\<rparr> [],
      \<lparr>Products =
         [''A'' \<mapsto> \<lparr>product_doc.price = 3602879701896397 / 36028797018963968, stock = 0\<rparr>,
          ''B'' \<mapsto> \<lparr>product_doc.price = 3602879701896397 / 18014398509481984, stock = 0\<rparr>],
       Carts = [''64b7f0c2a1d3e4f5a6b7c8d9'' \<mapsto>
                  \<lparr>cart.user = Some ''U1'', cart.products = []\<rparr>],
       Tickets =
         [\<lparr>code = generateUniqueCode rnd, ticket.user = ''U1'',
           ticket.products =
             [\<lparr>product = ''A'', quantity = 1,
               ticket_item.price = 3602879701896397 / 36028797018963968\<rparr>,
              \<lparr>product = ''B'', quantity = 1,
               ticket_item.price = 3602879701896397 / 18014398509481984\<rparr>],
           total = 1351079888211149 / 4503599627370496, createdAt = now\<rparr>]\<rparr>)"
  by (simp add: post_purchase_def purchase_loaded_def purchase_item_rd_def decimal_db_def
      castObjectId_values double_round_values saved_products_def Let_def fun_eq_iff)

lemma purchase_loop_all_resolved:
  assumes "purchase_loop s items = Inr s'"
  shows "takeWhile (\<lambda>i. product i \<in> dom (docs s)) items = items"
  using purchase_loop_resolved[OF assms] by (simp add: takeWhile_eq_all_conv)

lemma purchase_loop_first_missing:
  assumes "purchase_loop s items = Inl (e, s1)"
  shows "purchase_loop s (takeWhile (\<lambda>i. product i \<in> dom (docs s)) items) = Inr s1"
  using assms
proof (induction items arbitrary: s)
  case Nil
  then show ?case by simp
next
  case (Cons a items)
  show ?case
  proof (cases "purchase_item s a")
    case (Inl e')
    then have "product a \<notin> dom (docs s)"
      by (auto simp: purchase_item_def split: option.splits if_splits)
    moreover from Inl Cons.prems have "s1 = s" by simp
    ultimately show ?thesis by simp
  next
    case (Inr s2)
    then have mem: "product a \<in> dom (docs s)"
      by (auto simp: purchase_item_def split: option.splits)
    from Inr Cons.prems have "purchase_loop s2 items = Inl (e, s1)" by simp
    from Cons.IH[OF this] purchase_item_dom[OF Inr]
    have "purchase_loop s2 (takeWhile (\<lambda>i. product i \<in> dom (docs s)) items) = Inr s1" by simp
    with Inr mem show ?thesis by simp
  qed
qed

section \<open>The example scenario\<close>

lemma scenario_purchase:
  "purchase rnd now ''C1'' scenario_db =
     (Ok (scenario_ticket rnd now) [''P2''],
      \<lparr>Products = [''P1'' \<mapsto> \<lparr>product_doc.price = 3, stock = 8\<rparr>,
                   ''P2'' \<mapsto> \<lparr>product_doc.price = 7, stock = 1\<rparr>],
       Carts = [''C1'' \<mapsto> \<lparr>cart.user = Some ''U1'',
                  cart.products = [\<lparr>product = ''P2'', quantity = 5\<rparr>]\<rparr>],
       Tickets = [scenario_ticket rnd now]\<rparr>)"
  by (simp add: purchase_def purchase_item_def scenario_db_def scenario_ticket_def
      Let_def fun_eq_iff)

text \<open>
  C9. On the example scenario the handler answers 200; \<open>P1\<close> is left with stock 8 and
  \<open>P2\<close> with stock 1; the ticket has the single line \<open>P1\<close>, quantity 2, price 3, and
  total 6; the cart keeps only five units of \<open>P2\<close>; the list returned is \<open>[P2]\<close>.
\<close>

theorem example_scenario:
  "purchase rnd now ''C1''
     \<lparr>Products = [''P1'' \<mapsto> \<lparr>product_doc.price = 3, stock = 10\<rparr>,
                  ''P2'' \<mapsto> \<lparr>product_doc.price = 7, stock = 1\<rparr>],
      Carts = [''C1'' \<mapsto> \<lparr>cart.user = Some ''U1'',
                 cart.products = [\<lparr>product = ''P1'', quantity = 2\<rparr>,
                                  \<lparr>product = ''P2'', quantity = 5\<rparr>]\<rparr>],
      Tickets = []\<rparr>
   = (Ok \<lparr>code = generateUniqueCode rnd, ticket.user = ''U1'',
          ticket.products = [\<lparr>product = ''P1'', quantity = 2, ticket_item.price = 3\<rparr>],
          total = 6, createdAt = now\<rparr> [''P2''],
      \<lparr>Products = [''P1'' \<mapsto> \<lparr>product_doc.price = 3, stock = 8\<rparr>,
                  ''P2'' \<mapsto> \<lparr>product_doc.price = 7, stock = 1\<rparr>],
       Carts = [''C1'' \<mapsto> \<lparr>cart.user = Some ''U1'',
                 cart.products = [\<lparr>product = ''P2'', quantity = 5\<rparr>]\<rparr>],
       Tickets = [\<lparr>code = generateUniqueCode rnd, ticket.user = ''U1'',
          ticket.products = [\<lparr>product = ''P1'', quantity = 2, ticket_item.price = 3\<rparr>],
          total = 6, createdAt = now\<rparr>]\<rparr>)"
  using scenario_purchase[of rnd now] by (simp add: scenario_db_def scenario_ticket_def)

section \<open>Failed preconditions\<close>

text \<open>
  For an identifier that has been cast: when no cart is stored under it, the handler
  answers 404 and returns the database as it was.
\<close>

lemma purchase_not_found:
  assumes "Carts d c = None"
  shows "purchase rnd now c d = (NotFound, d) \<and> status NotFound = 404"
  using assms by (simp add: purchase_def)

text \<open>
  C5. For a path segment that matches no stored cart the route returns the database
  (products, carts, tickets) as it was. When the segment does not cast to an identifier,
  the lookup throws and the answer is 500; when it casts to an identifier under which no
  cart is stored, the answer is 404.
\<close>

theorem unmatched_cart_identifier:
  "(cast seg = None \<longrightarrow> post_purchase cast rd rnd now seg d = (ServerError, d))
   \<and> (\<forall>c. cast seg = Some c \<and> Carts d c = None \<longrightarrow>
         post_purchase cast rd rnd now seg d = (NotFound, d) \<and> status NotFound = 404)"
  by (simp add: post_purchase_def purchase_loaded_def)

theorem unmatched_cart_identifier_witness:
  "castObjectId ''C7'' = None
   \<and> post_purchase castObjectId double_round ''0.4fzyo82mvyr'' 1 ''C7'' scenario_db
       = (ServerError, scenario_db)
   \<and> castObjectId ''0123456789abcdef01234567'' = Some ''0123456789abcdef01234567''
   \<and> Carts scenario_db ''0123456789abcdef01234567'' = None
   \<and> post_purchase castObjectId double_round ''0.4fzyo82mvyr'' 1 ''0123456789abcdef01234567''
         scenario_db = (NotFound, scenario_db)
   \<and> status NotFound = 404"
proof -
  have h1: "castObjectId ''C7'' = None" by (rule castObjectId_values)
  have h2: "castObjectId ''0123456789abcdef01234567'' = Some ''0123456789abcdef01234567''
            \<and> Carts scenario_db ''0123456789abcdef01234567'' = None"
    by (simp add: castObjectId_values scenario_db_def)
  from unmatched_cart_identifier[of castObjectId "''C7''" double_round "''0.4fzyo82mvyr''" 1 scenario_db]
    h1
  have a: "post_purchase castObjectId double_round ''0.4fzyo82mvyr'' 1 ''C7'' scenario_db
       = (ServerError, scenario_db)" by blast
  from unmatched_cart_identifier[of castObjectId "''0123456789abcdef01234567''" double_round
      "''0.4fzyo82mvyr''" 1 scenario_db] h2
  have b: "post_purchase castObjectId double_round ''0.4fzyo82mvyr'' 1 ''0123456789abcdef01234567''
         scenario_db = (NotFound, scenario_db) \<and> status NotFound = 404" by blast
  from h1 h2 a b show ?thesis by blast
qed

text \<open>
  The segment \<^verbatim>\<open>C7\<close> matches no stored cart of the scenario and is not an ObjectId
  string: the answer is 500, not 404.
\<close>

theorem malformed_identifier_not_404:
  "castObjectId ''C7'' = None
   \<and> Carts scenario_db ''C7'' = None
   \<and> fst (post_purchase castObjectId double_round ''0.4fzyo82mvyr'' 1 ''C7'' scenario_db)
       = ServerError
   \<and> fst (post_purchase castObjectId double_round ''0.4fzyo82mvyr'' 1 ''C7'' scenario_db)
       \<noteq> NotFound
   \<and> status ServerError = 500
   \<and> snd (post_purchase castObjectId double_round ''0.4fzyo82mvyr'' 1 ''C7'' scenario_db)
       = scenario_db"
proof -
  have c: "castObjectId ''C7'' = None" by (rule castObjectId_values)
  have n: "Carts scenario_db ''C7'' = None" by (simp add: scenario_db_def)
  have r: "post_purchase castObjectId double_round ''0.4fzyo82mvyr'' 1 ''C7'' scenario_db
             = (ServerError, scenario_db)"
    by (simp only: post_purchase_def c option.case)
  show ?thesis using r c n by simp
qed

text \<open>
  C6. An existing cart without a user gets the 400 response, and the database is
  returned as it was: no stock changes, the cart keeps its line items, no ticket is added.
\<close>

theorem no_associated_user_no_mutation:
  assumes "Carts d c = Some crt" and "cart.user crt = None"
  shows "purchase rnd now c d = (BadRequest, d) \<and> status BadRequest = 400"
  using assms by (simp add: purchase_def)

theorem no_associated_user_no_mutation_witness:
  "Carts no_user_db ''C2'' =
      Some \<lparr>cart.user = None, cart.products = [\<lparr>product = ''P1'', quantity = 2\<rparr>]\<rparr>
   \<and> purchase ''0.4fzyo82mvyr'' 1 ''C2'' no_user_db = (BadRequest, no_user_db)
   \<and> status BadRequest = 400"
proof -
  have h1: "Carts no_user_db ''C2'' =
      Some \<lparr>cart.user = None, cart.products = [\<lparr>product = ''P1'', quantity = 2\<rparr>]\<rparr>"
    by (simp add: no_user_db_def)
  have h2: "cart.user \<lparr>cart.user = None, cart.products = [\<lparr>product = ''P1'', quantity = 2\<rparr>]\<rparr>
      = None" by simp
  from no_associated_user_no_mutation[OF h1 h2, of "''0.4fzyo82mvyr''" 1] h1
  show ?thesis by simp
qed

section \<open>Stock\<close>

text \<open>
  A checkout run with no other request in between, in exact arithmetic, on a cart with
  a user: after any number of loop iterations a product whose stock was not negative at
  the start is still there, with a stock that is not negative and equals the initial
  stock minus the quantities of its line items processed so far.
\<close>

lemma loop_stock_at_any_point:
  assumes "Products d k = Some p" and "0 \<le> stock p"
    and "purchase_loop (initial_state (Products d)) (take n items) = Inr s"
  shows "\<exists>p'. docs s k = Some p' \<and> 0 \<le> stock p'
           \<and> stock p' = stock p - reserved k (productsProcessed s)"
  using purchase_loop_stock[OF assms(3) assms(1) assms(2)] by blast

text \<open>
  The products it leaves in the database are exactly those of the loop state reached on
  the line items before the first one whose product is missing (all of them when the
  answer is 200): what the loop saved stays saved on the 500 path. The stock left
  is the initial stock minus the quantities processed, and a ticket lists exactly the
  processed line items. (One iteration subtracts the quantity and records the item
  exactly when the stock is at least the quantity: \<open>purchase_item_exact\<close>.)
\<close>

lemma isolated_checkout_stock:
  assumes p: "Products d k = Some p" and nonneg: "0 \<le> stock p"
    and crt: "Carts d c = Some crt" and u: "cart.user crt = Some u"
    and run: "purchase rnd now c d = (r, d')"
  shows "\<exists>s p'. purchase_loop (initial_state (Products d))
                  (takeWhile (\<lambda>i. product i \<in> dom (Products d)) (cart.products crt)) = Inr s
           \<and> Products d' = docs s
           \<and> docs s k = Some p' \<and> 0 \<le> stock p'
           \<and> stock p' = stock p - reserved k (productsProcessed s)
           \<and> (\<forall>t np. r = Ok t np \<longrightarrow> map unpriced (ticket.products t) = productsProcessed s)"
proof (cases "purchase_loop (initial_state (Products d)) (cart.products crt)")
  case (Inl es)
  obtain e s where es: "es = (e, s)" by (cases es)
  from purchase_loop_first_missing[OF Inl[unfolded es]]
  have s: "purchase_loop (initial_state (Products d))
             (takeWhile (\<lambda>i. product i \<in> dom (Products d)) (cart.products crt)) = Inr s"
    by simp
  from run crt u Inl es have d': "Products d' = docs s" "r = ServerError"
    by (auto simp: purchase_def)
  from purchase_loop_stock[OF s p nonneg] d' s show ?thesis by auto
next
  case (Inr s)
  have tw: "takeWhile (\<lambda>i. product i \<in> dom (Products d)) (cart.products crt)
              = cart.products crt"
    using purchase_loop_all_resolved[OF Inr] by simp
  have s: "purchase_loop (initial_state (Products d))
             (takeWhile (\<lambda>i. product i \<in> dom (Products d)) (cart.products crt)) = Inr s"
    unfolding tw by (rule Inr)
  from purchase_success[OF crt u Inr, of rnd now] run obtain lines where
    lines: "ticket_products (docs s) (productsProcessed s) = Inr lines"
      "\<forall>t np. r = Ok t np \<longrightarrow> ticket.products t = lines" "Products d' = docs s"
    by auto
  from ticket_products_unpriced[OF lines(1)] lines(2)
  have "\<forall>t np. r = Ok t np \<longrightarrow> map unpriced (ticket.products t) = productsProcessed s"
    by auto
  with purchase_loop_stock[OF s p nonneg] lines(3) s show ?thesis by auto
qed

text \<open>
  C2. Two checkouts, of the carts \<open>CA\<close> and \<open>CB\<close> of \<open>race_db\<close>, each load their cart
  and the product \<open>P\<close> (stock 5) before either writes. The first reserves four units and
  saves stock 1. The second still holds the document with stock 5: its guard passes, it
  computes 5 - 4 and saves stock 1 again. Both answers are 200 with a ticket for four
  units: eight units are ticketed out of a stock of 5, and the stock left is 1, not the
  initial stock minus the quantities reserved.
\<close>

theorem concurrent_checkouts_lose_a_reservation:
  "fst (purchase_loaded double_round rndA 1 ''CA'' (Carts race_db ''CA'') (Products race_db) race_db)
     = Ok \<lparr>code = generateUniqueCode rndA, ticket.user = ''UA'',
           ticket.products = [\<lparr>product = ''P'', quantity = 4, ticket_item.price = 1\<rparr>],
           total = 4, createdAt = 1\<rparr> []
   \<and> Products (race_after_A rndA) ''P'' = Some \<lparr>product_doc.price = 1, stock = 1\<rparr>
   \<and> fst (purchase_loaded double_round rndB 2 ''CB'' (Carts race_db ''CB'') (Products race_db)
            (race_after_A rndA))
     = Ok \<lparr>code = generateUniqueCode rndB, ticket.user = ''UB'',
           ticket.products = [\<lparr>product = ''P'', quantity = 4, ticket_item.price = 1\<rparr>],
           total = 4, createdAt = 2\<rparr> []
   \<and> Products (snd (purchase_loaded double_round rndB 2 ''CB'' (Carts race_db ''CB'')
                      (Products race_db) (race_after_A rndA))) ''P''
       = Some \<lparr>product_doc.price = 1, stock = 1\<rparr>
   \<and> Products race_db ''P'' = Some \<lparr>product_doc.price = 1, stock = 5\<rparr>
   \<and> reserved ''P'' [\<lparr>product = ''P'', quantity = 4, ticket_item.price = 1\<rparr>]
       + reserved ''P'' [\<lparr>product = ''P'', quantity = 4, ticket_item.price = 1\<rparr>] = 8
   \<and> (5 - 8 :: rat) \<noteq> 1"
  by (simp add: race_after_A_def purchase_loaded_def purchase_item_rd_def race_db_def
      saved_products_def double_round_values reserved_def Let_def)

section \<open>Ticket total\<close>

text \<open>
  In exact arithmetic the total of a ticket is the exact sum of quantity times price
  over the ticket's lines.
\<close>

lemma ticket_total_exact_arithmetic:
  assumes run: "purchase rnd now c d = (Ok t np, d')"
  shows "total t = items_total (ticket.products t)
       \<and> (\<forall>l \<in> set (ticket.products t).
             \<exists>p. Products d (product l) = Some p \<and> ticket_item.price l = product_doc.price p)
       \<and> Tickets d' = Tickets d @ [t]"
proof -
  from purchase_Ok_loop[OF run] obtain crt u s where
    crt: "Carts d c = Some crt" and u: "cart.user crt = Some u"
    and loop: "purchase_loop (initial_state (Products d)) (cart.products crt) = Inr s"
    by blast
  from purchase_success[OF crt u loop, of rnd now] run obtain lines where
    lines: "ticket_products (docs s) (productsProcessed s) = Inr lines"
      "totalAmount s = items_total lines"
      "ticket.products t = lines" "total t = totalAmount s"
      "Tickets d' = Tickets d @ [t]"
    by auto
  have "\<exists>p. Products d (product l) = Some p \<and> ticket_item.price l = product_doc.price p"
    if "l \<in> set lines" for l
  proof -
    from ticket_products_price[OF lines(1) that] obtain p' where
      p': "docs s (product l) = Some p'" "ticket_item.price l = product_doc.price p'" by blast
    from p'(1) purchase_loop_dom[OF loop] obtain p where
      p: "Products d (product l) = Some p" by force
    then have "docs (initial_state (Products d)) (product l) = Some p" by simp
    from purchase_loop_docs[OF loop this] p'(1) have "product_doc.price p' = product_doc.price p"
      by auto
    with p p'(2) show ?thesis by simp
  qed
  with lines show ?thesis by simp
qed

text \<open>
  C3. When the route returns a ticket, the ticket's total is the sum of price times
  quantity over the ticket's own lines as the program accumulates it: in line order
  from 0, each product and each partial sum rounded to a double. When none of these
  operations rounds, it is the exact sum. The price of each line is the price of its
  product in the database the checkout started from, the one read when the item was
  reserved, and the ticket is appended to the ledger as it is.
\<close>

theorem ticket_total_rounded:
  assumes run: "post_purchase cast rd rnd now seg d = (Ok t np, d')"
  shows "total t = total_rd rd (ticket.products t)
       \<and> (rounds_nowhere rd 0 (ticket.products t) \<longrightarrow> total t = items_total (ticket.products t))
       \<and> (\<forall>l \<in> set (ticket.products t).
             \<exists>p. Products d (product l) = Some p \<and> ticket_item.price l = product_doc.price p)
       \<and> Tickets d' = Tickets d @ [t]"
  using ticket_total_rd[OF run] total_rd_rounds_nowhere[of rd "ticket.products t"] by simp

theorem ticket_total_rounded_witness:
  "fst (post_purchase castObjectId double_round ''0.4fzyo82mvyr'' 1 ''64b7f0c2a1d3e4f5a6b7c8d9''
          decimal_db) =
     Ok \<lparr>code = generateUniqueCode ''0.4fzyo82mvyr'', ticket.user = ''U1'',
          ticket.products =
            [\<lparr>product = ''A'', quantity = 1,
              ticket_item.price = 3602879701896397 / 36028797018963968\<rparr>,
             \<lparr>product = ''B'', quantity = 1,
              ticket_item.price = 3602879701896397 / 18014398509481984\<rparr>],
          total = 1351079888211149 / 4503599627370496, createdAt = 1\<rparr> []
   \<and> total_rd double_round
         [\<lparr>product = ''A'', quantity = 1,
           ticket_item.price = 3602879701896397 / 36028797018963968\<rparr>,
          \<lparr>product = ''B'', quantity = 1,
           ticket_item.price = 3602879701896397 / 18014398509481984\<rparr>]
       = 1351079888211149 / 4503599627370496
   \<and> fst (post_purchase castObjectId double_round ''0.4fzyo82mvyr'' 1 ''64b7f0c2a1d3e4f5a6b7c8d9''
          scenario_hex_db) = Ok (scenario_ticket ''0.4fzyo82mvyr'' 1) [''P2'']
   \<and> rounds_nowhere double_round 0 (ticket.products (scenario_ticket ''0.4fzyo82mvyr'' 1))
   \<and> total (scenario_ticket ''0.4fzyo82mvyr'' 1)
       = items_total (ticket.products (scenario_ticket ''0.4fzyo82mvyr'' 1))
   \<and> items_total (ticket.products (scenario_ticket ''0.4fzyo82mvyr'' 1)) = 6"
proof -
  note run1 = decimal_purchase[of "''0.4fzyo82mvyr''" 1]
  note run2 = scenario_hex_purchase[of "''0.4fzyo82mvyr''" 1]
  have nr: "rounds_nowhere double_round 0 (ticket.products (scenario_ticket ''0.4fzyo82mvyr'' 1))"
    by (simp add: scenario_ticket_def double_round_values)
  have six: "items_total (ticket.products (scenario_ticket ''0.4fzyo82mvyr'' 1)) = 6"
    by (simp add: scenario_ticket_def items_total_def)
  from ticket_total_rounded[OF run1] run1
  have a: "total_rd double_round
         [\<lparr>product = ''A'', quantity = 1,
           ticket_item.price = 3602879701896397 / 36028797018963968\<rparr>,
          \<lparr>product = ''B'', quantity = 1,
           ticket_item.price = 3602879701896397 / 18014398509481984\<rparr>]
       = 1351079888211149 / 4503599627370496" by simp
  from ticket_total_rounded[OF run2] nr
  have b: "total (scenario_ticket ''0.4fzyo82mvyr'' 1)
       = items_total (ticket.products (scenario_ticket ''0.4fzyo82mvyr'' 1))" by blast
  from a b nr six run1 run2 show ?thesis by simp
qed

text \<open>
  On \<open>decimal_db\<close> the ticket has the lines of \<open>A\<close> at the double written \<^verbatim>\<open>0.1\<close> and of
  \<open>B\<close> at the double written \<^verbatim>\<open>0.2\<close>; its total is the double written
  \<^verbatim>\<open>0.30000000000000004\<close>, which is not the exact sum of the two lines.
\<close>

theorem ticket_total_not_exact_sum:
  "fst (post_purchase castObjectId double_round ''0.4fzyo82mvyr'' 1 ''64b7f0c2a1d3e4f5a6b7c8d9'' decimal_db) =
     Ok \<lparr>code = generateUniqueCode ''0.4fzyo82mvyr'', ticket.user = ''U1'',
          ticket.products =
            [\<lparr>product = ''A'', quantity = 1,
              ticket_item.price = 3602879701896397 / 36028797018963968\<rparr>,
             \<lparr>product = ''B'', quantity = 1,
              ticket_item.price = 3602879701896397 / 18014398509481984\<rparr>],
          total = 1351079888211149 / 4503599627370496, createdAt = 1\<rparr> []
   \<and> items_total
         [\<lparr>product = ''A'', quantity = 1,
           ticket_item.price = 3602879701896397 / 36028797018963968\<rparr>,
          \<lparr>product = ''B'', quantity = 1,
           ticket_item.price = 3602879701896397 / 18014398509481984\<rparr>]
       = 10808639105689191 / 36028797018963968
   \<and> (1351079888211149 / 4503599627370496 :: rat) \<noteq> 10808639105689191 / 36028797018963968"
  by (simp add: decimal_purchase items_total_def)

section \<open>Line items of quantity zero\<close>

text \<open>
  C10. For a line item of quantity 0: (1) one iteration of the loop on it, in any state
  where its product exists with a stock that is not negative (0 included), takes the
  reserving branch, and the only change is that the item is appended to
  \<open>productsProcessed\<close>: the product documents and \<open>totalAmount\<close> stay as they are;
  (2) when checkout of a cart holding the item returns a ticket, and the product existed
  with non-negative stock at the start, the ticket has a line for the item, at the
  product's price, whose quantity times price is 0.
\<close>

theorem zero_quantity_item_processed:
  assumes q0: "quantity item = 0"
  shows "(\<forall>s p. docs s (product item) = Some p \<and> 0 \<le> stock p \<longrightarrow>
            purchase_item s item = Inr (s\<lparr>productsProcessed := productsProcessed s @ [item]\<rparr>))
       \<and> (\<forall>rnd now c d t np d' crt p.
            purchase rnd now c d = (Ok t np, d') \<and> Carts d c = Some crt
            \<and> item \<in> set (cart.products crt)
            \<and> Products d (product item) = Some p \<and> 0 \<le> stock p \<longrightarrow>
            (\<exists>l \<in> set (ticket.products t). unpriced l = item
                \<and> ticket_item.price l = product_doc.price p
                \<and> quantity l * ticket_item.price l = 0))"
proof (intro conjI allI impI)
  fix s :: loop_state and p
  assume a: "docs s (product item) = Some p \<and> 0 \<le> stock p"
  then have "(docs s)(product item \<mapsto> p) = docs s" by (simp add: fun_upd_idem)
  with a q0 show "purchase_item s item = Inr (s\<lparr>productsProcessed := productsProcessed s @ [item]\<rparr>)"
    by (simp add: purchase_item_def)
next
  fix rnd now c and d :: db and t np and d' :: db and crt :: cart and p
  assume a: "purchase rnd now c d = (Ok t np, d') \<and> Carts d c = Some crt
            \<and> item \<in> set (cart.products crt)
            \<and> Products d (product item) = Some p \<and> 0 \<le> stock p"
  then have run: "purchase rnd now c d = (Ok t np, d')" and crt: "Carts d c = Some crt"
    and mem: "item \<in> set (cart.products crt)"
    and p: "Products d (product item) = Some p" and nonneg: "0 \<le> stock p"
    by simp_all
  from purchase_Ok_loop[OF run] crt obtain u s where
    u: "cart.user crt = Some u"
    and loop: "purchase_loop (initial_state (Products d)) (cart.products crt) = Inr s"
    by auto
  from purchase_success[OF crt u loop, of rnd now] run obtain lines where
    lines: "ticket_products (docs s) (productsProcessed s) = Inr lines"
      "ticket.products t = lines"
    by auto
  have init: "docs (initial_state (Products d)) (product item) = Some p" using p by simp
  from purchase_loop_zero_quantity[OF loop mem q0 init nonneg]
  have "item \<in> set (productsProcessed s)" .
  with ticket_products_unpriced[OF lines(1)] have "item \<in> unpriced ` set lines"
    by (simp flip: set_map)
  then obtain l where l: "l \<in> set lines" "unpriced l = item" by auto
  from l(2) have prod: "product l = product item" and qty: "quantity l = 0"
    using q0 by (auto simp: unpriced_def)
  from ticket_products_price[OF lines(1) l(1)] obtain p' where
    p': "docs s (product l) = Some p'" "ticket_item.price l = product_doc.price p'" by blast
  from purchase_loop_docs[OF loop init] p'(1) prod
  have "product_doc.price p' = product_doc.price p" by auto
  with p'(2) have "ticket_item.price l = product_doc.price p" by simp
  with l qty lines(2)
  show "\<exists>l \<in> set (ticket.products t). unpriced l = item
                \<and> ticket_item.price l = product_doc.price p
                \<and> quantity l * ticket_item.price l = 0"
    by auto
qed

lemma zero_purchase:
  "purchase rnd now ''C3'' zero_db =
     (Ok \<lparr>code = generateUniqueCode rnd, ticket.user = ''U1'',
          ticket.products = [\<lparr>product = ''P0'', quantity = 0, ticket_item.price = 4\<rparr>],
          total = 0, createdAt = now\<rparr> [],
      \<lparr>Products = [''P0'' \<mapsto> \<lparr>product_doc.price = 4, stock = 0\<rparr>],
       Carts = [''C3'' \<mapsto> \<lparr>cart.user = Some ''U1'', cart.products = []\<rparr>],
       Tickets = [\<lparr>code = generateUniqueCode rnd, ticket.user = ''U1'',
          ticket.products = [\<lparr>product = ''P0'', quantity = 0, ticket_item.price = 4\<rparr>],
          total = 0, createdAt = now\<rparr>]\<rparr>)"
  by (simp add: purchase_def purchase_item_def zero_db_def Let_def fun_eq_iff)

theorem zero_quantity_item_processed_witness:
  "quantity \<lparr>product = ''P0'', quantity = 0\<rparr> = 0
   \<and> purchase_item (initial_state (Products zero_db)) \<lparr>product = ''P0'', quantity = 0\<rparr> =
       Inr \<lparr>docs = Products zero_db, totalAmount = 0, productsNotProcessed = [],
            productsProcessed = [\<lparr>product = ''P0'', quantity = 0\<rparr>]\<rparr>
   \<and> fst (purchase ''0.4fzyo82mvyr'' 1 ''C3'' zero_db) =
       Ok \<lparr>code = generateUniqueCode ''0.4fzyo82mvyr'', ticket.user = ''U1'',
           ticket.products = [\<lparr>product = ''P0'', quantity = 0, ticket_item.price = 4\<rparr>],
           total = 0, createdAt = 1\<rparr> []
   \<and> (\<exists>l \<in> set [\<lparr>product = ''P0'', quantity = 0, ticket_item.price = 4\<rparr>].
         unpriced l = \<lparr>product = ''P0'', quantity = 0\<rparr>
         \<and> ticket_item.price l = 4 \<and> quantity l * ticket_item.price l = 0)"
proof -
  let ?item = "\<lparr>product = ''P0'', quantity = 0\<rparr>"
  let ?p = "\<lparr>product_doc.price = 4, stock = 0\<rparr>"
  let ?t = "\<lparr>code = generateUniqueCode ''0.4fzyo82mvyr'', ticket.user = ''U1'',
          ticket.products = [\<lparr>product = ''P0'', quantity = 0, ticket_item.price = 4\<rparr>],
          total = 0, createdAt = 1\<rparr>"
  have q0: "quantity ?item = 0" by simp
  note zq = zero_quantity_item_processed[OF q0]
  have h1: "docs (initial_state (Products zero_db)) (product ?item) = Some ?p \<and> 0 \<le> stock ?p"
    by (simp add: zero_db_def)
  from zq h1 have step: "purchase_item (initial_state (Products zero_db)) ?item =
      Inr ((initial_state (Products zero_db))\<lparr>productsProcessed :=
             productsProcessed (initial_state (Products zero_db)) @ [?item]\<rparr>)"
    by blast
  have run: "fst (purchase ''0.4fzyo82mvyr'' 1 ''C3'' zero_db) = Ok ?t []"
    by (simp add: zero_purchase)
  have h2: "purchase ''0.4fzyo82mvyr'' 1 ''C3'' zero_db =
              (Ok ?t [], snd (purchase ''0.4fzyo82mvyr'' 1 ''C3'' zero_db))
            \<and> Carts zero_db ''C3'' =
                Some \<lparr>cart.user = Some ''U1'', cart.products = [?item]\<rparr>
            \<and> ?item \<in> set (cart.products \<lparr>cart.user = Some ''U1'', cart.products = [?item]\<rparr>)
            \<and> Products zero_db (product ?item) = Some ?p \<and> 0 \<le> stock ?p"
    by (simp add: zero_purchase) (simp add: zero_db_def)
  from zq h2 have "\<exists>l \<in> set (ticket.products ?t). unpriced l = ?item
         \<and> ticket_item.price l = product_doc.price ?p \<and> quantity l * ticket_item.price l = 0"
    by blast
  then have line: "\<exists>l \<in> set [\<lparr>product = ''P0'', quantity = 0, ticket_item.price = 4\<rparr>].
         unpriced l = ?item \<and> ticket_item.price l = 4 \<and> quantity l * ticket_item.price l = 0"
    by simp
  from step have "purchase_item (initial_state (Products zero_db)) ?item =
       Inr \<lparr>docs = Products zero_db, totalAmount = 0, productsNotProcessed = [],
            productsProcessed = [?item]\<rparr>"
    by (simp add: initial_state_def)
  with q0 run line show ?thesis by blast
qed

section \<open>A line item whose product is missing\<close>

text \<open>
  When the cart has a user and every line item refers to an existing product, the
  handler answers 200 with a ticket.
\<close>

lemma purchase_resolved_Ok:
  assumes crt: "Carts d c = Some crt" and u: "cart.user crt = Some u"
    and res: "\<forall>item \<in> set (cart.products crt). product item \<in> dom (Products d)"
  shows "\<exists>t np d'. purchase rnd now c d = (Ok t np, d')"
proof -
  from res have "\<forall>item \<in> set (cart.products crt).
      product item \<in> dom (docs (initial_state (Products d)))" by simp
  from purchase_loop_total[OF this] obtain s where
    "purchase_loop (initial_state (Products d)) (cart.products crt) = Inr s" by blast
  from purchase_success[OF crt u this, of rnd now] show ?thesis by blast
qed

text \<open>
  When a line item of a cart with a user refers to a product that does not exist, the
  handler answers 500; no ticket is added and no cart is rewritten.
\<close>

lemma missing_product_ServerError:
  assumes crt: "Carts d c = Some crt" and u: "cart.user crt = Some u"
    and mem: "item \<in> set (cart.products crt)" and missing: "Products d (product item) = None"
  shows "\<exists>d'. purchase rnd now c d = (ServerError, d')
           \<and> Tickets d' = Tickets d \<and> Carts d' = Carts d"
proof (cases "purchase_loop (initial_state (Products d)) (cart.products crt)")
  case (Inl es)
  obtain e s where "es = (e, s)" by (cases es)
  with Inl crt u show ?thesis by (simp add: purchase_def)
next
  case (Inr s)
  from purchase_loop_resolved[OF Inr mem] missing show ?thesis by auto
qed

text \<open>
  C4. On the cart of \<open>dangling_db\<close> the handler reserves two units of \<open>P1\<close> and then
  meets the line item of the missing product \<open>P9\<close>: the \<^verbatim>\<open>else\<close> branch reads
  \<^verbatim>\<open>product._id\<close> of null, the exception reaches the \<^verbatim>\<open>catch\<close> block and the answer is
  500. No ticket is created, the cart is not rewritten, and the stock of \<open>P1\<close> stays
  reduced to 8.
\<close>

theorem missing_product_aborts_checkout:
  "purchase rnd now ''C1'' dangling_db =
     (ServerError,
      \<lparr>Products = [''P1'' \<mapsto> \<lparr>product_doc.price = 3, stock = 8\<rparr>],
       Carts = [''C1'' \<mapsto> \<lparr>cart.user = Some ''U1'',
                 cart.products = [\<lparr>product = ''P1'', quantity = 2\<rparr>,
                                  \<lparr>product = ''P9'', quantity = 1\<rparr>]\<rparr>],
       Tickets = []\<rparr>)"
  by (simp add: purchase_def purchase_item_def dangling_db_def Let_def fun_eq_iff)

section \<open>Line items after checkout\<close>

text \<open>
  When the line items of the cart refer to pairwise different products, the line items
  of the ticket (without their prices) and the line items left in the cart are together
  exactly the line items of the original cart.
\<close>

lemma conservation_without_duplicates:
  assumes run: "purchase rnd now c d = (Ok t np, d')" and crt: "Carts d c = Some crt"
    and dist: "distinct (map product (cart.products crt))"
  shows "\<exists>crt'. Carts d' c = Some crt'
           \<and> mset (map unpriced (ticket.products t)) + mset (cart.products crt')
               = mset (cart.products crt)"
proof -
  from purchase_Ok_loop[OF run] crt obtain u s where
    u: "cart.user crt = Some u"
    and loop: "purchase_loop (initial_state (Products d)) (cart.products crt) = Inr s"
    by auto
  from purchase_success[OF crt u loop, of rnd now] run obtain lines where
    lines: "ticket_products (docs s) (productsProcessed s) = Inr lines"
      "ticket.products t = lines"
      "Carts d' c = Some (crt\<lparr>cart.products :=
          filter (\<lambda>item. product item \<in> set (productsNotProcessed s)) (cart.products crt)\<rparr>)"
    by auto
  have "set (productsNotProcessed (initial_state (Products d)))
          \<inter> product ` set (cart.products crt) = {}" by simp
  from purchase_loop_conservation[OF loop dist this]
  have "mset (productsProcessed s)
          + mset (filter (\<lambda>item. product item \<in> set (productsNotProcessed s)) (cart.products crt))
        = mset (cart.products crt)" by simp
  with ticket_products_unpriced[OF lines(1)] lines(2,3) show ?thesis by simp
qed

lemma duplicate_purchase:
  "purchase rnd now ''C1'' duplicate_db =
     (Ok \<lparr>code = generateUniqueCode rnd, ticket.user = ''U1'',
          ticket.products = [\<lparr>product = ''P'', quantity = 2, ticket_item.price = 1\<rparr>],
          total = 2, createdAt = now\<rparr> [''P''],
      \<lparr>Products = [''P'' \<mapsto> \<lparr>product_doc.price = 1, stock = 3\<rparr>],
       Carts = [''C1'' \<mapsto> \<lparr>cart.user = Some ''U1'',
                 cart.products = [\<lparr>product = ''P'', quantity = 2\<rparr>,
                                  \<lparr>product = ''P'', quantity = 4\<rparr>]\<rparr>],
       Tickets = [\<lparr>code = generateUniqueCode rnd, ticket.user = ''U1'',
          ticket.products = [\<lparr>product = ''P'', quantity = 2, ticket_item.price = 1\<rparr>],
          total = 2, createdAt = now\<rparr>]\<rparr>)"
  by (simp add: purchase_def purchase_item_def duplicate_db_def Let_def fun_eq_iff)

text \<open>
  C1. On the cart of \<open>duplicate_db\<close> the first line item (two units of \<open>P\<close>) is
  reserved and put on the ticket, the second (four units, stock now 3) is not, so \<open>P\<close>
  enters \<open>productsNotProcessed\<close>. The filter keeps every line item whose product is in
  that list: the cart left behind still holds both line items, and the line item of
  two units is on the ticket and in the cart at once.
\<close>

theorem duplicate_product_item_kept_twice:
  "fst (purchase rnd now ''C1'' duplicate_db) =
     Ok \<lparr>code = generateUniqueCode rnd, ticket.user = ''U1'',
         ticket.products = [\<lparr>product = ''P'', quantity = 2, ticket_item.price = 1\<rparr>],
         total = 2, createdAt = now\<rparr> [''P'']
   \<and> Carts (snd (purchase rnd now ''C1'' duplicate_db)) ''C1'' =
       Some \<lparr>cart.user = Some ''U1'',
             cart.products = [\<lparr>product = ''P'', quantity = 2\<rparr>,
                              \<lparr>product = ''P'', quantity = 4\<rparr>]\<rparr>
   \<and> mset (map unpriced [\<lparr>product = ''P'', quantity = 2, ticket_item.price = 1\<rparr>])
       + mset [\<lparr>product = ''P'', quantity = 2\<rparr>, \<lparr>product = ''P'', quantity = 4\<rparr>]
     \<noteq> mset [\<lparr>product = ''P'', quantity = 2\<rparr>, \<lparr>product = ''P'', quantity = 4\<rparr>]"
proof -
  have "size (mset (map unpriced [\<lparr>product = ''P'', quantity = 2, ticket_item.price = 1\<rparr>])
       + mset [\<lparr>product = ''P'', quantity = (2::rat)\<rparr>, \<lparr>product = ''P'', quantity = 4\<rparr>])
     \<noteq> size (mset [\<lparr>product = ''P'', quantity = (2::rat)\<rparr>, \<lparr>product = ''P'', quantity = 4\<rparr>])"
    by simp
  then have "mset (map unpriced [\<lparr>product = ''P'', quantity = 2, ticket_item.price = 1\<rparr>])
       + mset [\<lparr>product = ''P'', quantity = (2::rat)\<rparr>, \<lparr>product = ''P'', quantity = 4\<rparr>]
     \<noteq> mset [\<lparr>product = ''P'', quantity = (2::rat)\<rparr>, \<lparr>product = ''P'', quantity = 4\<rparr>]"
    by metis
  then show ?thesis by (simp add: duplicate_purchase)
qed

section \<open>Checkout of the residual cart\<close>

text \<open>
  When the line items of the cart refer to pairwise different products, a second
  checkout of the cart left by the first reserves nothing: its ticket has no lines and
  total 0, the products and the carts stay as the first checkout left them, and the same
  products are reported as not processed.
\<close>

lemma second_checkout_without_duplicates:
  assumes run: "purchase rnd now c d = (Ok t np, d')" and crt: "Carts d c = Some crt"
    and dist: "distinct (map product (cart.products crt))"
  shows "\<exists>t2 d2. purchase rnd2 now2 c d' = (Ok t2 np, d2)
           \<and> ticket.products t2 = [] \<and> total t2 = 0
           \<and> Products d2 = Products d' \<and> Carts d2 = Carts d'"
proof -
  from purchase_Ok_loop[OF run] crt obtain u s where
    u: "cart.user crt = Some u"
    and loop: "purchase_loop (initial_state (Products d)) (cart.products crt) = Inr s"
    by auto
  let ?res = "filter (\<lambda>item. product item \<in> set (productsNotProcessed s)) (cart.products crt)"
  let ?crt' = "crt\<lparr>cart.products := ?res\<rparr>"
  from purchase_success[OF crt u loop, of rnd now] run have
    d': "Carts d' c = Some ?crt'" "Products d' = docs s" "np = productsNotProcessed s"
    by auto
  have empty: "set (productsNotProcessed (initial_state (Products d)))
          \<inter> product ` set (cart.products crt) = {}" by simp
  have fail: "\<forall>item \<in> set ?res. \<exists>p. docs (initial_state (Products d')) (product item) = Some p
                \<and> \<not> quantity item \<le> stock p"
    using purchase_loop_residual_fails[OF loop dist empty] d'(2) by simp
  let ?s2 = "(initial_state (Products d'))\<lparr>productsNotProcessed :=
               productsNotProcessed (initial_state (Products d')) @ map product ?res\<rparr>"
  from purchase_loop_all_fail[OF fail]
  have loop2: "purchase_loop (initial_state (Products d')) (cart.products ?crt') = Inr ?s2"
    by simp
  have u2: "cart.user ?crt' = Some u" using u by simp
  have np2: "map product ?res = productsNotProcessed s"
    using purchase_loop_not_processed_eq[OF loop dist empty] by simp
  have np_s2: "productsNotProcessed ?s2 = np" using np2 d'(3) by simp
  have keep: "filter (\<lambda>item. product item \<in> set (productsNotProcessed ?s2))
                (cart.products ?crt') = ?res"
    by (simp add: np2)
  from purchase_success[OF d'(1) u2 loop2, of rnd2 now2] obtain lines t2 d2 where
    lines: "ticket_products (docs ?s2) (productsProcessed ?s2) = Inr lines"
    and t2: "t2 = \<lparr>code = generateUniqueCode rnd2, ticket.user = u, ticket.products = lines,
                    total = totalAmount ?s2, createdAt = now2\<rparr>"
    and d2: "d2 = d'\<lparr>Products := docs ?s2, Tickets := Tickets d' @ [t2],
                  Carts := (Carts d')(c \<mapsto> ?crt'\<lparr>cart.products :=
                     filter (\<lambda>item. product item \<in> set (productsNotProcessed ?s2))
                       (cart.products ?crt')\<rparr>)\<rparr>"
    and run2: "purchase rnd2 now2 c d' = (Ok t2 (productsNotProcessed ?s2), d2)"
    by blast
  from lines have "lines = []" by simp
  with t2 have a: "ticket.products t2 = []" "total t2 = 0" by simp_all
  have "?crt'\<lparr>cart.products := ?res\<rparr> = ?crt'" by simp
  with d'(1) have "(Carts d')(c \<mapsto> ?crt'\<lparr>cart.products := ?res\<rparr>) = Carts d'"
    by (simp only: fun_upd_idem)
  with d2 keep have b: "Products d2 = Products d'" "Carts d2 = Carts d'" by simp_all
  from run2 np_s2 a b show ?thesis by simp
qed

text \<open>
  C7. On the cart of \<open>duplicate_db\<close> the first checkout tickets two units of \<open>P\<close>
  (stock 5 to 3) and leaves both line items in the cart. A second checkout of that cart
  reserves the two units again: the stock of \<open>P\<close> falls from 3 to 1 and a second ticket
  with the same line is appended.
\<close>

theorem second_checkout_reserves_again:
  "purchase rnd2 now2 ''C1'' (snd (purchase rnd1 now1 ''C1'' duplicate_db)) =
     (Ok \<lparr>code = generateUniqueCode rnd2, ticket.user = ''U1'',
          ticket.products = [\<lparr>product = ''P'', quantity = 2, ticket_item.price = 1\<rparr>],
          total = 2, createdAt = now2\<rparr> [''P''],
      \<lparr>Products = [''P'' \<mapsto> \<lparr>product_doc.price = 1, stock = 1\<rparr>],
       Carts = [''C1'' \<mapsto> \<lparr>cart.user = Some ''U1'',
                 cart.products = [\<lparr>product = ''P'', quantity = 2\<rparr>,
                                  \<lparr>product = ''P'', quantity = 4\<rparr>]\<rparr>],
       Tickets = [\<lparr>code = generateUniqueCode rnd1, ticket.user = ''U1'',
          ticket.products = [\<lparr>product = ''P'', quantity = 2, ticket_item.price = 1\<rparr>],
          total = 2, createdAt = now1\<rparr>,
          \<lparr>code = generateUniqueCode rnd2, ticket.user = ''U1'',
          ticket.products = [\<lparr>product = ''P'', quantity = 2, ticket_item.price = 1\<rparr>],
          total = 2, createdAt = now2\<rparr>]\<rparr>)"
  by (simp add: duplicate_purchase) (simp add: purchase_def purchase_item_def Let_def fun_eq_iff)

section \<open>Ticket codes are not unique\<close>

text \<open>
  C8. Two different renderings of the random draw that agree on the nine characters after
  \<^verbatim>\<open>0.\<close> give the same code, and nothing compares a new code with the codes already
  in the ledger: two checkouts of the scenario's cart with these draws leave two tickets
  with the code \<open>4FZYO82MV\<close>.
\<close>

theorem ticket_codes_collide:
  "''0.4fzyo82mvyr'' \<noteq> ''0.4fzyo82mvzz''
   \<and> generateUniqueCode ''0.4fzyo82mvyr'' = ''4FZYO82MV''
   \<and> generateUniqueCode ''0.4fzyo82mvzz'' = ''4FZYO82MV''
   \<and> map code (Tickets (snd (purchase ''0.4fzyo82mvzz'' 2 ''C1''
                          (snd (purchase ''0.4fzyo82mvyr'' 1 ''C1'' scenario_db)))))
       = [''4FZYO82MV'', ''4FZYO82MV'']
   \<and> length (Tickets (snd (purchase ''0.4fzyo82mvzz'' 2 ''C1''
                          (snd (purchase ''0.4fzyo82mvyr'' 1 ''C1'' scenario_db))))) = 2"
proof -
  have c1: "generateUniqueCode ''0.4fzyo82mvyr'' = ''4FZYO82MV''"
    by (simp add: generateUniqueCode_def substr_def toUpperCase_def toUpperCase_char_def)
  have c2: "generateUniqueCode ''0.4fzyo82mvzz'' = ''4FZYO82MV''"
    by (simp add: generateUniqueCode_def substr_def toUpperCase_def toUpperCase_char_def)
  have "Tickets (snd (purchase ''0.4fzyo82mvzz'' 2 ''C1''
                          (snd (purchase ''0.4fzyo82mvyr'' 1 ''C1'' scenario_db)))) =
        [scenario_ticket ''0.4fzyo82mvyr'' 1,
         \<lparr>code = generateUniqueCode ''0.4fzyo82mvzz'', ticket.user = ''U1'',
          ticket.products = [], total = 0, createdAt = 2\<rparr>]"
    by (simp add: scenario_purchase) (simp add: purchase_def purchase_item_def Let_def)
  then show ?thesis using c1 c2 by (simp add: scenario_ticket_def)
qed

end
